theory Spec2Isabelle
  imports Main "HOL-Library.FSet"
begin

section \<open>Symbols and expressions\<close>

text \<open>
  \<^verbatim>\<open>expr.h\<close>: a \<^verbatim>\<open>symbol_id\<close> is a \<^verbatim>\<open>std::size_t\<close>; \<^verbatim>\<open>index_t\<close> is the signed
  index type of buffers. Only the order and equality of symbols matter below, and no
  arithmetic is ever done on a symbol, so symbols are natural numbers.
\<close>

type_synonym symbol_id = nat
type_synonym index_t = int

subsection \<open>The node tags of \<^verbatim>\<open>expr.h\<close>\<close>

text \<open>
  \<^verbatim>\<open>enum class node_type\<close>, in the order of the header. The enumerators carry the prefix
  \<open>nt_\<close> since \<open>min\<close>, \<open>max\<close>, \<open>div\<close> and \<open>mod\<close> are constants of HOL.
\<close>

datatype node_type =
    nt_variable | nt_constant | nt_let
  | nt_add | nt_sub | nt_mul | nt_div | nt_mod
  | nt_min | nt_max
  | nt_equal | nt_not_equal | nt_less | nt_less_equal
  | nt_bitwise_and | nt_bitwise_or | nt_bitwise_xor
  | nt_logical_and | nt_logical_or

text \<open>
  The node classes the header declares: \<^verbatim>\<open>let\<close>, \<^verbatim>\<open>variable\<close>, \<^verbatim>\<open>constant\<close> and one class
  for each use of \<^verbatim>\<open>DECLARE_BINARY_OP\<close>.
\<close>

datatype node_class =
    cls_let | cls_variable | cls_constant
  | cls_add | cls_sub | cls_mul | cls_div | cls_mod
  | cls_min | cls_max
  | cls_equal | cls_not_equal | cls_less | cls_less_equal
  | cls_bitwise_and | cls_bitwise_or | cls_bitwise_xor
  | cls_logical_and | cls_logical_or

text \<open>
  \<^verbatim>\<open>T::static_type\<close>, read off each class: \<^verbatim>\<open>let\<close> (line 145), \<^verbatim>\<open>variable\<close> (line 156),
  \<^verbatim>\<open>constant\<close> (line 168) and \<^verbatim>\<open>node_type::op\<close> for the binary classes (line 177).
\<close>

fun static_type :: "node_class \<Rightarrow> node_type" where
  "static_type cls_let = nt_let"
| "static_type cls_variable = nt_variable"
| "static_type cls_constant = nt_variable"
| "static_type cls_add = nt_add"
| "static_type cls_sub = nt_sub"
| "static_type cls_mul = nt_mul"
| "static_type cls_div = nt_div"
| "static_type cls_mod = nt_mod"
| "static_type cls_min = nt_min"
| "static_type cls_max = nt_max"
| "static_type cls_equal = nt_equal"
| "static_type cls_not_equal = nt_not_equal"
| "static_type cls_less = nt_less"
| "static_type cls_less_equal = nt_less_equal"
| "static_type cls_bitwise_and = nt_bitwise_and"
| "static_type cls_bitwise_or = nt_bitwise_or"
| "static_type cls_bitwise_xor = nt_bitwise_xor"
| "static_type cls_logical_and = nt_logical_and"
| "static_type cls_logical_or = nt_logical_or"

text \<open>
  A node object: the class it was constructed as (what it actually is) and the field
  \<^verbatim>\<open>type\<close> of \<^verbatim>\<open>base_node\<close>. \<^verbatim>\<open>as\<close> reads nothing but \<^verbatim>\<open>type\<close>, so the members of
  the classes are left out.
\<close>

record base_node =
  dyn_class :: node_class
  type :: node_type

text \<open>\<^verbatim>\<open>expr_node<T>() : base_node(T::static_type)\<close>.\<close>

definition expr_node :: "node_class \<Rightarrow> base_node" where
  "expr_node T = \<lparr>dyn_class = T, type = static_type T\<rparr>"

text \<open>
  \<^verbatim>\<open>base_node::as<T>()\<close>: the node itself when \<^verbatim>\<open>type == T::static_type\<close>, otherwise
  \<^verbatim>\<open>nullptr\<close> (here \<open>None\<close>).
\<close>

definition as_node :: "node_class \<Rightarrow> base_node \<Rightarrow> base_node option" where
  "as_node T n = (if type n = static_type T then Some n else None)"

subsection \<open>Expressions\<close>

text \<open>
  The intrinsics of \<^verbatim>\<open>call\<close>, as \<^verbatim>\<open>print.cc\<close> lists them.
\<close>

datatype intrinsic =
    positive_infinity_fn | negative_infinity_fn | indeterminate_fn | abs_fn
  | buffer_rank_fn | buffer_base_fn | buffer_elem_size_fn | buffer_size_bytes_fn
  | buffer_min_fn | buffer_max_fn | buffer_stride_fn | buffer_fold_factor_fn
  | buffer_extent_fn | buffer_at_fn

text \<open>
  The binary node classes the printer visits (\<^verbatim>\<open>print.cc\<close>, \<^verbatim>\<open>visit_bin_op\<close> and the two
  visits of \<^verbatim>\<open>min\<close> and \<^verbatim>\<open>max\<close>). All of them have the two members \<^verbatim>\<open>a\<close> and \<^verbatim>\<open>b\<close>, so
  one constructor carries the class as a tag.
\<close>

datatype binary_op =
    op_add | op_sub | op_mul | op_div | op_mod
  | op_min | op_max
  | op_equal | op_not_equal | op_less | op_less_equal
  | op_logical_and | op_logical_or

text \<open>
  An \<^verbatim>\<open>expr\<close> is a handle that may be null (\<^verbatim>\<open>expr()\<close>, tested by \<^verbatim>\<open>defined()\<close>), also
  as a member of another node: \<open>expr_undefined\<close> is the null handle.
\<close>

datatype expr =
    expr_undefined
  | variable symbol_id
  | wildcard symbol_id
  | constant_expr index_t
  | let_expr symbol_id expr expr
  | binary binary_op expr expr
  | logical_not expr
  | select expr expr expr
  | call intrinsic "expr list"

definition defined :: "expr \<Rightarrow> bool" where
  "defined e = (e \<noteq> expr_undefined)"

text \<open>
  The operators and builders of \<^verbatim>\<open>expr.cc\<close> (the unnamed part 3): each one makes the
  node; \<^verbatim>\<open>>\<close> and \<^verbatim>\<open>>=\<close> make \<^verbatim>\<open>less\<close> and \<^verbatim>\<open>less_equal\<close> with the operands swapped.
\<close>

definition add :: "expr \<Rightarrow> expr \<Rightarrow> expr" where "add a b = binary op_add a b"
definition sub :: "expr \<Rightarrow> expr \<Rightarrow> expr" where "sub a b = binary op_sub a b"
definition mul :: "expr \<Rightarrow> expr \<Rightarrow> expr" where "mul a b = binary op_mul a b"
definition min_expr :: "expr \<Rightarrow> expr \<Rightarrow> expr" where "min_expr a b = binary op_min a b"
definition max_expr :: "expr \<Rightarrow> expr \<Rightarrow> expr" where "max_expr a b = binary op_max a b"
definition equal :: "expr \<Rightarrow> expr \<Rightarrow> expr" where "equal a b = binary op_equal a b"
definition less :: "expr \<Rightarrow> expr \<Rightarrow> expr" where "less a b = binary op_less a b"
definition less_equal :: "expr \<Rightarrow> expr \<Rightarrow> expr" where "less_equal a b = binary op_less_equal a b"
definition greater :: "expr \<Rightarrow> expr \<Rightarrow> expr" where "greater a b = binary op_less b a"
definition greater_equal :: "expr \<Rightarrow> expr \<Rightarrow> expr" where "greater_equal a b = binary op_less_equal b a"
definition logical_and :: "expr \<Rightarrow> expr \<Rightarrow> expr" where "logical_and a b = binary op_logical_and a b"

section \<open>Intervals (\<^verbatim>\<open>interval.h\<close>)\<close>

text \<open>
  \<^verbatim>\<open>struct interval { expr min, max; }\<close>. The members are \<open>imin\<close> and \<open>imax\<close> here, \<open>min\<close>
  and \<open>max\<close> being constants of HOL.
\<close>

record interval_expr =
  imin :: expr
  imax :: expr

type_synonym box_expr = "interval_expr list"

text \<open>\<^verbatim>\<open>extent()\<close> returns \<^verbatim>\<open>max - min + 1\<close>.\<close>

definition extent :: "interval_expr \<Rightarrow> expr" where
  "extent i = add (sub (imax i) (imin i)) (constant_expr 1)"

text \<open>\<^verbatim>\<open>operator|=\<close>, the union (lines 49 to 53).\<close>

definition interval_or :: "interval_expr \<Rightarrow> interval_expr \<Rightarrow> interval_expr" where
  "interval_or l r = \<lparr>imin = min_expr (imin l) (imin r), imax = max_expr (imax l) (imax r)\<rparr>"

text \<open>
  \<^verbatim>\<open>operator&=\<close>, commented as the intersection (lines 55 to 60); \<^verbatim>\<open>operator&\<close> copies the
  left operand and applies it.
\<close>

definition interval_and :: "interval_expr \<Rightarrow> interval_expr \<Rightarrow> interval_expr" where
  "interval_and l r = \<lparr>imin = min_expr (imin l) (imin r), imax = max_expr (imax l) (imax r)\<rparr>"

text \<open>
  \<^verbatim>\<open>box operator&(box a, const box& b)\<close>: the assertion on the sizes is the error \<open>None\<close>,
  then the intervals are combined index by index.
\<close>

definition box_and :: "box_expr \<Rightarrow> box_expr \<Rightarrow> box_expr option" where
  "box_and a b = (if length a = length b then Some (map2 interval_and a b) else None)"

subsection \<open>The value of an expression\<close>

text \<open>
  Modelled from the spec: the evaluator (\<^verbatim>\<open>evaluate.h\<close>) is not among the sources. Section
  3.2 of the specification fixes the meaning of the nodes: integer arithmetic, floored
  division and modulus, division by zero indeterminate, comparisons and logical nodes with
  the values 1 and 0, \<open>min\<close>, \<open>max\<close>, \<open>select\<close> and \<open>let\<close>. A null handle, an unbound
  variable, a wildcard and an indeterminate value have no value (\<open>None\<close>); so have the
  infinities and the buffer intrinsics, which need a buffer to read.
\<close>

fun eval_binary :: "binary_op \<Rightarrow> index_t \<Rightarrow> index_t \<Rightarrow> index_t option" where
  "eval_binary op_add x y = Some (x + y)"
| "eval_binary op_sub x y = Some (x - y)"
| "eval_binary op_mul x y = Some (x * y)"
| "eval_binary op_div x y = (if y = 0 then None else Some (x div y))"
| "eval_binary op_mod x y = (if y = 0 then None else Some (x mod y))"
| "eval_binary op_min x y = Some (min x y)"
| "eval_binary op_max x y = Some (max x y)"
| "eval_binary op_equal x y = Some (if x = y then 1 else 0)"
| "eval_binary op_not_equal x y = Some (if x \<noteq> y then 1 else 0)"
| "eval_binary op_less x y = Some (if x < y then 1 else 0)"
| "eval_binary op_less_equal x y = Some (if x \<le> y then 1 else 0)"
| "eval_binary op_logical_and x y = Some (if x \<noteq> 0 \<and> y \<noteq> 0 then 1 else 0)"
| "eval_binary op_logical_or x y = Some (if x \<noteq> 0 \<or> y \<noteq> 0 then 1 else 0)"

fun eval :: "(symbol_id \<Rightarrow> index_t option) \<Rightarrow> expr \<Rightarrow> index_t option" where
  "eval env expr_undefined = None"
| "eval env (variable s) = env s"
| "eval env (wildcard s) = None"
| "eval env (constant_expr c) = Some c"
| "eval env (let_expr s v b) =
     (case eval env v of None \<Rightarrow> None | Some x \<Rightarrow> eval (env(s \<mapsto> x)) b)"
| "eval env (binary oper a b) =
     (case eval env a of None \<Rightarrow> None
      | Some x \<Rightarrow> (case eval env b of None \<Rightarrow> None | Some y \<Rightarrow> eval_binary oper x y))"
| "eval env (logical_not a) =
     (case eval env a of None \<Rightarrow> None | Some x \<Rightarrow> Some (if x = 0 then 1 else 0))"
| "eval env (select c t f) =
     (case eval env c of None \<Rightarrow> None
      | Some x \<Rightarrow> if x \<noteq> 0 then eval env t else eval env f)"
| "eval env (call f args) =
     (case (f, args) of
        (abs_fn, [a]) \<Rightarrow> (case eval env a of None \<Rightarrow> None | Some x \<Rightarrow> Some \<bar>x\<bar>)
      | _ \<Rightarrow> None)"

section \<open>Statements\<close>

datatype loop_mode = serial | parallel

datatype memory_type = stack | heap

text \<open>\<^verbatim>\<open>dim_expr\<close>, printed by \<^verbatim>\<open>print.cc\<close> as bounds, stride and fold factor.\<close>

record dim_expr =
  bounds :: interval_expr
  stride :: expr
  fold_factor :: expr

text \<open>
  The statement nodes, with the members the passes and the printer read. A \<^verbatim>\<open>stmt\<close> is a
  nullable handle like \<^verbatim>\<open>expr\<close> (the printer tests \<^verbatim>\<open>b->a.defined()\<close> on the members of
  a block): \<open>stmt_undefined\<close> is the null handle. The callback of a \<^verbatim>\<open>call_stmt\<close> is
  opaque to every pass and is a number here. The dimension of \<^verbatim>\<open>crop_dim\<close> and
  \<^verbatim>\<open>slice_dim\<close> is an \<^verbatim>\<open>int\<close> used as a vector index, a natural number here.
\<close>

datatype stmt =
    stmt_undefined
  | block stmt stmt
  | let_stmt symbol_id expr stmt
  | loop symbol_id loop_mode interval_expr expr stmt
  | if_then_else expr stmt stmt
  | call_stmt nat "symbol_id list" "symbol_id list"
  | copy_stmt symbol_id "expr list" symbol_id "nat list option"
  | allocate memory_type symbol_id nat "dim_expr list" stmt
  | make_buffer symbol_id expr expr "dim_expr list" stmt
  | crop_buffer symbol_id box_expr stmt
  | crop_dim symbol_id nat interval_expr stmt
  | slice_buffer symbol_id "expr list" stmt
  | slice_dim symbol_id nat expr stmt
  | truncate_rank symbol_id nat stmt
  | check expr

text \<open>
  What stops a pass: \<^verbatim>\<open>std::abort()\<close>, the dereference of an empty \<^verbatim>\<open>std::optional\<close>
  (\<^verbatim>\<open>*x\<close> or \<^verbatim>\<open>x->\<close> on an absent entry) and the read of a vector past its end; the last
  two are undefined behaviour in C++ and error values here.
\<close>

datatype error = aborted | absent_entry | out_of_range

subsection \<open>Symbol maps\<close>

text \<open>
  Modelled from the spec: \<^verbatim>\<open>symbol_map<T>\<close> is not among the sources. The passes use it as
  a vector of \<^verbatim>\<open>std::optional<T>\<close> indexed by \<^verbatim>\<open>symbol_id\<close> (they iterate over its entries,
  skip the empty ones and read \<^verbatim>\<open>size()\<close>); section 9 of the specification describes it as
  a lookup keyed by \<^verbatim>\<open>SymbolId\<close> whose scoped bindings restore the prior binding on scope
  exit. A lookup beyond the end finds no entry; an assignment grows the vector.
\<close>

type_synonym 'a symbol_map = "'a option list"

definition lookup :: "'a symbol_map \<Rightarrow> symbol_id \<Rightarrow> 'a option" where
  "lookup m s = (if s < length m then m ! s else None)"

definition assign :: "'a symbol_map \<Rightarrow> symbol_id \<Rightarrow> 'a option \<Rightarrow> 'a symbol_map" where
  "assign m s v = (m @ replicate (Suc s - length m) None)[s := v]"

subsection \<open>Helpers shared by the passes\<close>

text \<open>
  \<^verbatim>\<open>vector_at\<close> on an optional vector, and \<^verbatim>\<open>merge_crop\<close>: a defined bound of the crop
  overwrites the bound recorded for that dimension; a default-constructed interval has
  two null bounds.
\<close>

definition vector_at :: "box_expr option \<Rightarrow> nat \<Rightarrow> box_expr" where
  "vector_at v n =
     (let w = (case v of None \<Rightarrow> replicate (n + 1) \<lparr>imin = expr_undefined, imax = expr_undefined\<rparr>
               | Some w \<Rightarrow> w)
      in if n \<ge> length w
         then w @ replicate (n + 1 - length w) \<lparr>imin = expr_undefined, imax = expr_undefined\<rparr>
         else w)"

definition merge_crop_dim :: "box_expr option \<Rightarrow> nat \<Rightarrow> interval_expr \<Rightarrow> box_expr option" where
  "merge_crop_dim b dim new_bounds =
     (let b1 = (if defined (imin new_bounds)
                then Some ((vector_at b dim)[dim := (vector_at b dim ! dim)\<lparr>imin := imin new_bounds\<rparr>])
                else b)
      in if defined (imax new_bounds)
         then Some ((vector_at b1 dim)[dim := (vector_at b1 dim ! dim)\<lparr>imax := imax new_bounds\<rparr>])
         else b1)"

fun merge_crop_from :: "nat \<Rightarrow> box_expr option \<Rightarrow> box_expr \<Rightarrow> box_expr option" where
  "merge_crop_from d b [] = b"
| "merge_crop_from d b (x # xs) = merge_crop_from (d + 1) (merge_crop_dim b d x) xs"

definition merge_crop :: "box_expr option \<Rightarrow> box_expr \<Rightarrow> box_expr option" where
  "merge_crop b new_bounds = merge_crop_from 0 b new_bounds"

text \<open>
  \<^verbatim>\<open>buffer_min(buf, d)\<close> and its siblings build the call of the intrinsic on the buffer and
  the dimension.
\<close>

definition buffer_min :: "expr \<Rightarrow> nat \<Rightarrow> expr" where
  "buffer_min buf d = call buffer_min_fn [buf, constant_expr (int d)]"

definition buffer_max :: "expr \<Rightarrow> nat \<Rightarrow> expr" where
  "buffer_max buf d = call buffer_max_fn [buf, constant_expr (int d)]"

definition buffer_stride :: "expr \<Rightarrow> nat \<Rightarrow> expr" where
  "buffer_stride buf d = call buffer_stride_fn [buf, constant_expr (int d)]"

definition buffer_extent :: "expr \<Rightarrow> nat \<Rightarrow> expr" where
  "buffer_extent buf d = call buffer_extent_fn [buf, constant_expr (int d)]"

definition buffer_fold_factor :: "expr \<Rightarrow> nat \<Rightarrow> expr" where
  "buffer_fold_factor buf d = call buffer_fold_factor_fn [buf, constant_expr (int d)]"

text \<open>
  Modelled from the spec: \<^verbatim>\<open>match\<close> (\<^verbatim>\<open>substitute.h\<close>) is not among the sources. Section 4.5:
  matching is structural on the expression tree.
\<close>

definition match :: "expr \<Rightarrow> expr \<Rightarrow> bool" where
  "match a b = (a = b)"

section \<open>The buffer aliaser (\<^verbatim>\<open>optimizations.cc\<close>)\<close>

text \<open>
  \<^verbatim>\<open>is_elementwise\<close>: the loop over the dimensions of \<^verbatim>\<open>in_x\<close>, from dimension \<open>d\<close> on.
\<close>

fun is_elementwise_from :: "nat \<Rightarrow> box_expr \<Rightarrow> symbol_id \<Rightarrow> bool" where
  "is_elementwise_from d [] out = True"
| "is_elementwise_from d (x # xs) out =
     (if \<not> match (imin x) (buffer_min (variable out) d) then False
      else if \<not> match (imax x) (buffer_max (variable out) d) then False
      else is_elementwise_from (d + 1) xs out)"

definition is_elementwise :: "box_expr \<Rightarrow> symbol_id \<Rightarrow> bool" where
  "is_elementwise in_x out = is_elementwise_from 0 in_x out"

text \<open>
  \<^verbatim>\<open>buffer_info\<close>; the \<^verbatim>\<open>std::set\<close> of candidates is a finite set, whose \<^verbatim>\<open>begin()\<close> is its
  least element. The state of the pass is its three symbol maps.
\<close>

record buffer_info =
  alias_candidates :: "symbol_id fset"
  elementwise :: bool

record buffer_aliaser =
  alias_info :: "buffer_info symbol_map"
  buffer_bounds :: "box_expr symbol_map"
  aliases :: "symbol_id symbol_map"

text \<open>
  \<^verbatim>\<open>visit(const call_stmt*)\<close>, lines 130 to 149: the inner loop over the inputs for one
  output \<open>out\<close>. The result says whether the visit returned from inside the loop.
  \<^verbatim>\<open>info->elementwise = false\<close> is executed in the branch where \<^verbatim>\<open>info\<close> may be empty.
\<close>

fun call_stmt_inputs :: "buffer_aliaser \<Rightarrow> symbol_id \<Rightarrow> symbol_id list \<Rightarrow> error + (bool \<times> buffer_aliaser)" where
  "call_stmt_inputs st out [] = Inr (False, st)"
| "call_stmt_inputs st out (i # inputs) =
     (let in_x = lookup (buffer_bounds st) i; info = lookup (alias_info st) i in
      if in_x = None \<or> info = None then
        (case info of
           None \<Rightarrow> Inl absent_entry
         | Some bi \<Rightarrow>
             Inr (True, st\<lparr>alias_info := assign (alias_info st) i (Some (bi\<lparr>elementwise := False\<rparr>))\<rparr>))
      else if \<not> is_elementwise (the in_x) out then
        Inr (True, st\<lparr>alias_info := assign (alias_info st) i (Some ((the info)\<lparr>elementwise := False\<rparr>))\<rparr>)
      else
        call_stmt_inputs
          (st\<lparr>alias_info := assign (alias_info st) i
                 (Some ((the info)\<lparr>alias_candidates := finsert out (alias_candidates (the info))\<rparr>))\<rparr>)
          out inputs)"

fun call_stmt_outputs :: "buffer_aliaser \<Rightarrow> symbol_id list \<Rightarrow> symbol_id list \<Rightarrow> error + buffer_aliaser" where
  "call_stmt_outputs st inputs [] = Inr st"
| "call_stmt_outputs st inputs (out # outputs) =
     (case call_stmt_inputs st out inputs of
        Inl e \<Rightarrow> Inl e
      | Inr (returned, st1) \<Rightarrow> if returned then Inr st1 else call_stmt_outputs st1 inputs outputs)"

text \<open>
  The loop of \<^verbatim>\<open>visit(const allocate*)\<close> that erases the target from the candidates of
  every entry of \<^verbatim>\<open>alias_info\<close>.
\<close>

definition erase_candidate :: "symbol_id \<Rightarrow> buffer_info symbol_map \<Rightarrow> buffer_info symbol_map" where
  "erase_candidate target m =
     map (map_option (\<lambda>i. i\<lparr>alias_candidates := alias_candidates i |-| {|target|}\<rparr>)) m"

text \<open>
  The mutator. The visits of \<^verbatim>\<open>allocate\<close>, \<^verbatim>\<open>call_stmt\<close>, \<^verbatim>\<open>crop_buffer\<close>, \<^verbatim>\<open>crop_dim\<close> and the
  three aborting ones are those of \<^verbatim>\<open>buffer_aliaser\<close>; \<^verbatim>\<open>mutate\<close> of a null statement is the
  null statement (\<^verbatim>\<open>node_mutator.h\<close>). A value set by \<^verbatim>\<open>set_value_in_scope\<close> is put back to
  what it was when the visit ends, the later binding first.

  Modelled from the spec: the other visits are the defaults of \<^verbatim>\<open>node_mutator\<close>, whose
  definitions (\<^verbatim>\<open>node_mutator.cc\<close>) are not among the sources. Section 9: the default
  recursively mutates the children of a node and rebuilds it. The pass overrides no
  visit of an expression, so expressions stay as they are.
\<close>

fun alias_mutate :: "buffer_aliaser \<Rightarrow> stmt \<Rightarrow> error + (stmt \<times> buffer_aliaser)" where
  "alias_mutate st stmt_undefined = Inr (stmt_undefined, st)"
| "alias_mutate st (block a b) =
     (case alias_mutate st a of
        Inl e \<Rightarrow> Inl e
      | Inr (a', st1) \<Rightarrow>
          (case alias_mutate st1 b of
             Inl e \<Rightarrow> Inl e
           | Inr (b', st2) \<Rightarrow> Inr (block a' b', st2)))"
| "alias_mutate st (let_stmt name v body) =
     (case alias_mutate st body of
        Inl e \<Rightarrow> Inl e
      | Inr (body', st1) \<Rightarrow> Inr (let_stmt name v body', st1))"
| "alias_mutate st (loop name mode bnds step body) =
     (case alias_mutate st body of
        Inl e \<Rightarrow> Inl e
      | Inr (body', st1) \<Rightarrow> Inr (loop name mode bnds step body', st1))"
| "alias_mutate st (if_then_else c t f) =
     (case alias_mutate st t of
        Inl e \<Rightarrow> Inl e
      | Inr (t', st1) \<Rightarrow>
          (case alias_mutate st1 f of
             Inl e \<Rightarrow> Inl e
           | Inr (f', st2) \<Rightarrow> Inr (if_then_else c t' f', st2)))"
| "alias_mutate st (call_stmt target inputs outputs) =
     (case call_stmt_outputs st inputs outputs of
        Inl e \<Rightarrow> Inl e
      | Inr st1 \<Rightarrow> Inr (call_stmt target inputs outputs, st1))"
| "alias_mutate st (copy_stmt src src_x dst padding) = Inr (copy_stmt src src_x dst padding, st)"
| "alias_mutate st (allocate storage name elem_size dims body) =
     (let old_bounds = lookup (buffer_bounds st) name;
          old_info = lookup (alias_info st) name;
          st0 = st\<lparr>buffer_bounds := assign (buffer_bounds st) name (Some (map bounds dims)),
                   alias_info := assign (alias_info st) name
                                   (Some \<lparr>alias_candidates = {||}, elementwise = True\<rparr>)\<rparr>
      in case alias_mutate st0 body of
           Inl e \<Rightarrow> Inl e
         | Inr (body', st1) \<Rightarrow>
             (case lookup (alias_info st1) name of
                None \<Rightarrow> Inl absent_entry
              | Some info \<Rightarrow>
                  let (result, st2) =
                    (if elementwise info \<and> alias_candidates info \<noteq> {||} then
                       (let target = fMin (alias_candidates info) in
                        (let_stmt name (variable target) body',
                         st1\<lparr>aliases := assign (aliases st1) name (Some target),
                             alias_info := erase_candidate target (alias_info st1)\<rparr>))
                     else (allocate storage name elem_size dims body', st1))
                  in Inr (result,
                          st2\<lparr>alias_info := assign (alias_info st2) name old_info,
                              buffer_bounds := assign (buffer_bounds st2) name old_bounds\<rparr>)))"
| "alias_mutate st (make_buffer name base elem_size dims body) =
     (case alias_mutate st body of
        Inl e \<Rightarrow> Inl e
      | Inr (body', st1) \<Rightarrow> Inr (make_buffer name base elem_size dims body', st1))"
| "alias_mutate st (crop_buffer name bnds body) =
     (let old_bounds = lookup (buffer_bounds st) name;
          st0 = st\<lparr>buffer_bounds := assign (buffer_bounds st) name (merge_crop old_bounds bnds)\<rparr>
      in case alias_mutate st0 body of
           Inl e \<Rightarrow> Inl e
         | Inr (body', st1) \<Rightarrow>
             Inr (crop_buffer name bnds body',
                  st1\<lparr>buffer_bounds := assign (buffer_bounds st1) name old_bounds\<rparr>))"
| "alias_mutate st (crop_dim name dim bnds body) =
     (let old_bounds = lookup (buffer_bounds st) name;
          st0 = st\<lparr>buffer_bounds := assign (buffer_bounds st) name (merge_crop_dim old_bounds dim bnds)\<rparr>
      in case alias_mutate st0 body of
           Inl e \<Rightarrow> Inl e
         | Inr (body', st1) \<Rightarrow>
             Inr (crop_dim name dim bnds body',
                  st1\<lparr>buffer_bounds := assign (buffer_bounds st1) name old_bounds\<rparr>))"
| "alias_mutate st (slice_buffer name at body) = Inl aborted"
| "alias_mutate st (slice_dim name dim at body) = Inl aborted"
| "alias_mutate st (truncate_rank name rank body) = Inl aborted"
| "alias_mutate st (check c) = Inr (check c, st)"

text \<open>\<^verbatim>\<open>alias_buffers\<close>: the mutator run on a fresh \<^verbatim>\<open>buffer_aliaser\<close>.\<close>

definition alias_buffers :: "stmt \<Rightarrow> error + stmt" where
  "alias_buffers s =
     (case alias_mutate \<lparr>alias_info = [], buffer_bounds = [], aliases = []\<rparr> s of
        Inl e \<Rightarrow> Inl e
      | Inr (s', st) \<Rightarrow> Inr s')"

section \<open>The scope reducer (\<^verbatim>\<open>optimizations.cc\<close>)\<close>

text \<open>
  \<^verbatim>\<open>block::make(a, b)\<close> of \<^verbatim>\<open>expr.cc\<close> makes the node \<open>block a b\<close>, whatever its operands.

  Modelled from the spec: the overload of \<^verbatim>\<open>block::make\<close> that takes a list of statements
  is not among the sources. Section 3.3 reads a block as the list of its statements, run
  in order; the model is the fold that \<^verbatim>\<open>expr.cc\<close> gives the constructor
  \<^verbatim>\<open>stmt(std::initializer_list<stmt>)\<close>: the result starts undefined, an element becomes
  the result while the result is undefined, and is appended with \<^verbatim>\<open>block::make(result, i)\<close>
  once it is defined.
\<close>

fun block_make_from :: "stmt \<Rightarrow> stmt list \<Rightarrow> stmt" where
  "block_make_from result [] = result"
| "block_make_from result (i # stmts) =
     block_make_from (if result \<noteq> stmt_undefined then block result i else i) stmts"

definition block_make :: "stmt list \<Rightarrow> stmt" where
  "block_make stmts = block_make_from stmt_undefined stmts"

text \<open>
  \<^verbatim>\<open>for_each_stmt_forward\<close> and \<^verbatim>\<open>for_each_stmt_backward\<close>: the callback threads the
  variables it captures by reference, here the accumulator. A statement that is not a
  block, the null statement among them, is handed to the callback.
\<close>

fun for_each_stmt_forward :: "stmt \<Rightarrow> (stmt \<Rightarrow> 'a \<Rightarrow> 'a) \<Rightarrow> 'a \<Rightarrow> 'a" where
  "for_each_stmt_forward (block a b) fn acc =
     for_each_stmt_forward b fn (for_each_stmt_forward a fn acc)"
| "for_each_stmt_forward s fn acc = fn s acc"

fun for_each_stmt_backward :: "stmt \<Rightarrow> (stmt \<Rightarrow> 'a \<Rightarrow> 'a) \<Rightarrow> 'a \<Rightarrow> 'a" where
  "for_each_stmt_backward (block a b) fn acc =
     for_each_stmt_backward a fn (for_each_stmt_backward b fn acc)"
| "for_each_stmt_backward s fn acc = fn s acc"

text \<open>
  \<^verbatim>\<open>split_body\<close>. \<^verbatim>\<open>depends_on\<close> (\<^verbatim>\<open>depends_on.h\<close>) is not among the sources and is the
  parameter \<open>dep\<close>. The first callback works on \<open>(before, new_body_after, depended_on)\<close>,
  the second on \<open>(new_body, after, depended_on)\<close>.
\<close>

definition split_forward ::
  "(stmt \<Rightarrow> symbol_id list \<Rightarrow> bool) \<Rightarrow> symbol_id list \<Rightarrow> stmt
     \<Rightarrow> stmt \<times> stmt \<times> bool \<Rightarrow> stmt \<times> stmt \<times> bool" where
  "split_forward dep vars s = (\<lambda>(before, new_body_after, depended_on).
     if depended_on \<or> dep s vars
     then (before, block_make [new_body_after, s], True)
     else (block_make [before, s], new_body_after, depended_on))"

definition split_backward ::
  "(stmt \<Rightarrow> symbol_id list \<Rightarrow> bool) \<Rightarrow> symbol_id list \<Rightarrow> stmt
     \<Rightarrow> stmt \<times> stmt \<times> bool \<Rightarrow> stmt \<times> stmt \<times> bool" where
  "split_backward dep vars s = (\<lambda>(new_body, after, depended_on).
     if \<not> depended_on \<and> \<not> dep s vars
     then (new_body, block_make [s, after], depended_on)
     else (block_make [s, new_body], after, True))"

definition split_body ::
  "(stmt \<Rightarrow> symbol_id list \<Rightarrow> bool) \<Rightarrow> stmt \<Rightarrow> symbol_id list \<Rightarrow> stmt \<times> stmt \<times> stmt" where
  "split_body dep body vars =
     (let (before, new_body_after, d1) =
            for_each_stmt_forward body (split_forward dep vars)
              (stmt_undefined, stmt_undefined, False);
          (new_body, after, d2) =
            for_each_stmt_backward new_body_after (split_backward dep vars)
              (stmt_undefined, stmt_undefined, False)
      in (before, new_body, after))"

text \<open>
  The eight nodes \<^verbatim>\<open>scope_reducer\<close> visits with \<^verbatim>\<open>visit_stmt\<close>: the symbol and the body of
  such a node, and \<^verbatim>\<open>clone_with_new_body\<close>.
\<close>

fun scope_of :: "stmt \<Rightarrow> (symbol_id \<times> stmt) option" where
  "scope_of (let_stmt name v body) = Some (name, body)"
| "scope_of (allocate storage name elem_size dims body) = Some (name, body)"
| "scope_of (make_buffer name base elem_size dims body) = Some (name, body)"
| "scope_of (crop_buffer name bnds body) = Some (name, body)"
| "scope_of (crop_dim name dim bnds body) = Some (name, body)"
| "scope_of (slice_buffer name at body) = Some (name, body)"
| "scope_of (slice_dim name dim at body) = Some (name, body)"
| "scope_of (truncate_rank name rank body) = Some (name, body)"
| "scope_of s = None"

fun clone_with_new_body :: "stmt \<Rightarrow> stmt \<Rightarrow> stmt" where
  "clone_with_new_body (let_stmt name v body) new_body = let_stmt name v new_body"
| "clone_with_new_body (allocate storage name elem_size dims body) new_body =
     allocate storage name elem_size dims new_body"
| "clone_with_new_body (make_buffer name base elem_size dims body) new_body =
     make_buffer name base elem_size dims new_body"
| "clone_with_new_body (crop_buffer name bnds body) new_body = crop_buffer name bnds new_body"
| "clone_with_new_body (crop_dim name dim bnds body) new_body = crop_dim name dim bnds new_body"
| "clone_with_new_body (slice_buffer name at body) new_body = slice_buffer name at new_body"
| "clone_with_new_body (slice_dim name dim at body) new_body = slice_dim name dim at new_body"
| "clone_with_new_body (truncate_rank name rank body) new_body = truncate_rank name rank new_body"
| "clone_with_new_body s new_body = s"

text \<open>
  \<^verbatim>\<open>visit_stmt\<close>, after the body has been mutated. \<^verbatim>\<open>same_as\<close> compares handles: a mutated
  statement is the same as the original exactly when the visit returned the original
  node, so every visit returns, with its result, whether the result is the node it was
  given (\<open>same\<close>).
\<close>

definition visit_stmt ::
  "(stmt \<Rightarrow> symbol_id list \<Rightarrow> bool) \<Rightarrow> stmt \<Rightarrow> symbol_id \<Rightarrow> stmt \<times> bool \<Rightarrow> stmt \<times> bool" where
  "visit_stmt dep op name mutated =
     (let (body, same) = mutated;
          (before, new_body, after) = split_body dep body [name]
      in if same \<and> before = stmt_undefined \<and> after = stmt_undefined then (op, True)
         else if new_body \<noteq> stmt_undefined
              then (block_make [before, clone_with_new_body op new_body, after], False)
              else (block_make [before, after], False))"

text \<open>
  The mutator of \<^verbatim>\<open>scope_reducer\<close>. \<^verbatim>\<open>mutate\<close> of a null statement is the null statement.

  Modelled from the spec: the visits of \<^verbatim>\<open>block\<close>, \<^verbatim>\<open>loop\<close>, \<^verbatim>\<open>if_then_else\<close>, \<^verbatim>\<open>call_stmt\<close>,
  \<^verbatim>\<open>copy_stmt\<close> and \<^verbatim>\<open>check\<close> are the defaults of \<^verbatim>\<open>node_mutator\<close>, which are not among the
  sources: each mutates the children, returns the node itself when every child came back
  the same, and rebuilds the node otherwise (section 9).
\<close>

fun reduce_mutate :: "(stmt \<Rightarrow> symbol_id list \<Rightarrow> bool) \<Rightarrow> stmt \<Rightarrow> stmt \<times> bool" where
  "reduce_mutate dep stmt_undefined = (stmt_undefined, True)"
| "reduce_mutate dep (block a b) =
     (let (a', same_a) = reduce_mutate dep a; (b', same_b) = reduce_mutate dep b
      in (block a' b', same_a \<and> same_b))"
| "reduce_mutate dep (loop name mode bnds step body) =
     (let (body', same) = reduce_mutate dep body in (loop name mode bnds step body', same))"
| "reduce_mutate dep (if_then_else c t f) =
     (let (t', same_t) = reduce_mutate dep t; (f', same_f) = reduce_mutate dep f
      in (if_then_else c t' f', same_t \<and> same_f))"
| "reduce_mutate dep (call_stmt target inputs outputs) = (call_stmt target inputs outputs, True)"
| "reduce_mutate dep (copy_stmt src src_x dst padding) = (copy_stmt src src_x dst padding, True)"
| "reduce_mutate dep (check c) = (check c, True)"
| "reduce_mutate dep (let_stmt name v body) =
     visit_stmt dep (let_stmt name v body) name (reduce_mutate dep body)"
| "reduce_mutate dep (allocate storage name elem_size dims body) =
     visit_stmt dep (allocate storage name elem_size dims body) name (reduce_mutate dep body)"
| "reduce_mutate dep (make_buffer name base elem_size dims body) =
     visit_stmt dep (make_buffer name base elem_size dims body) name (reduce_mutate dep body)"
| "reduce_mutate dep (crop_buffer name bnds body) =
     visit_stmt dep (crop_buffer name bnds body) name (reduce_mutate dep body)"
| "reduce_mutate dep (crop_dim name dim bnds body) =
     visit_stmt dep (crop_dim name dim bnds body) name (reduce_mutate dep body)"
| "reduce_mutate dep (slice_buffer name at body) =
     visit_stmt dep (slice_buffer name at body) name (reduce_mutate dep body)"
| "reduce_mutate dep (slice_dim name dim at body) =
     visit_stmt dep (slice_dim name dim at body) name (reduce_mutate dep body)"
| "reduce_mutate dep (truncate_rank name rank body) =
     visit_stmt dep (truncate_rank name rank body) name (reduce_mutate dep body)"

text \<open>\<^verbatim>\<open>reduce_scopes\<close>.\<close>

definition reduce_scopes :: "(stmt \<Rightarrow> symbol_id list \<Rightarrow> bool) \<Rightarrow> stmt \<Rightarrow> stmt" where
  "reduce_scopes dep s = fst (reduce_mutate dep s)"

text \<open>
  The statements of a body, in the order \<^verbatim>\<open>for_each_stmt_forward\<close> meets them: \<open>leaves\<close>
  with the null statements, \<open>statements\<close> without.
\<close>

fun leaves :: "stmt \<Rightarrow> stmt list" where
  "leaves (block a b) = leaves a @ leaves b"
| "leaves s = [s]"

definition statements :: "stmt \<Rightarrow> stmt list" where
  "statements s = filter (\<lambda>x. x \<noteq> stmt_undefined) (leaves s)"

subsection \<open>\<^verbatim>\<open>depends_on\<close>\<close>

text \<open>
  Modelled from the spec: \<^verbatim>\<open>depends_on\<close> (\<^verbatim>\<open>depends_on.h\<close>) is not among the sources. The
  passes ask whether an expression or a statement mentions a symbol (sections 4.3, 4.4
  and 4.6): the symbol occurs in it as a variable or as the buffer a statement names,
  outside the scope of an inner binding of the same symbol. It instantiates the
  parameter \<open>dep\<close> of the scope reducer where a concrete run is evaluated.
\<close>

fun depends_on_expr :: "expr \<Rightarrow> symbol_id \<Rightarrow> bool" where
  "depends_on_expr expr_undefined v = False"
| "depends_on_expr (variable s) v = (s = v)"
| "depends_on_expr (wildcard s) v = (s = v)"
| "depends_on_expr (constant_expr c) v = False"
| "depends_on_expr (let_expr s val body) v =
     (depends_on_expr val v \<or> (s \<noteq> v \<and> depends_on_expr body v))"
| "depends_on_expr (binary oper a b) v = (depends_on_expr a v \<or> depends_on_expr b v)"
| "depends_on_expr (logical_not a) v = depends_on_expr a v"
| "depends_on_expr (select c t f) v =
     (depends_on_expr c v \<or> depends_on_expr t v \<or> depends_on_expr f v)"
| "depends_on_expr (call f args) v = (\<exists>a \<in> set args. depends_on_expr a v)"

definition depends_on_interval :: "interval_expr \<Rightarrow> symbol_id \<Rightarrow> bool" where
  "depends_on_interval i v = (depends_on_expr (imin i) v \<or> depends_on_expr (imax i) v)"

definition depends_on_dim :: "dim_expr \<Rightarrow> symbol_id \<Rightarrow> bool" where
  "depends_on_dim d v =
     (depends_on_interval (bounds d) v \<or> depends_on_expr (stride d) v
      \<or> depends_on_expr (fold_factor d) v)"

fun depends_on_stmt :: "stmt \<Rightarrow> symbol_id \<Rightarrow> bool" where
  "depends_on_stmt stmt_undefined v = False"
| "depends_on_stmt (block a b) v = (depends_on_stmt a v \<or> depends_on_stmt b v)"
| "depends_on_stmt (let_stmt name val body) v =
     (depends_on_expr val v \<or> (name \<noteq> v \<and> depends_on_stmt body v))"
| "depends_on_stmt (loop name mode bnds step body) v =
     (depends_on_interval bnds v \<or> depends_on_expr step v \<or> (name \<noteq> v \<and> depends_on_stmt body v))"
| "depends_on_stmt (if_then_else c t f) v =
     (depends_on_expr c v \<or> depends_on_stmt t v \<or> depends_on_stmt f v)"
| "depends_on_stmt (call_stmt target inputs outputs) v = (v \<in> set inputs \<or> v \<in> set outputs)"
| "depends_on_stmt (copy_stmt src src_x dst padding) v =
     (src = v \<or> dst = v \<or> (\<exists>a \<in> set src_x. depends_on_expr a v))"
| "depends_on_stmt (allocate storage name elem_size dims body) v =
     ((\<exists>d \<in> set dims. depends_on_dim d v) \<or> (name \<noteq> v \<and> depends_on_stmt body v))"
| "depends_on_stmt (make_buffer name base elem_size dims body) v =
     (depends_on_expr base v \<or> depends_on_expr elem_size v \<or> (\<exists>d \<in> set dims. depends_on_dim d v)
      \<or> (name \<noteq> v \<and> depends_on_stmt body v))"
| "depends_on_stmt (crop_buffer name bnds body) v =
     (name = v \<or> (\<exists>i \<in> set bnds. depends_on_interval i v) \<or> depends_on_stmt body v)"
| "depends_on_stmt (crop_dim name dim bnds body) v =
     (name = v \<or> depends_on_interval bnds v \<or> depends_on_stmt body v)"
| "depends_on_stmt (slice_buffer name at body) v =
     (name = v \<or> (\<exists>a \<in> set at. depends_on_expr a v) \<or> depends_on_stmt body v)"
| "depends_on_stmt (slice_dim name dim at body) v =
     (name = v \<or> depends_on_expr at v \<or> depends_on_stmt body v)"
| "depends_on_stmt (truncate_rank name rank body) v = (name = v \<or> depends_on_stmt body v)"
| "depends_on_stmt (check c) v = depends_on_expr c v"

definition depends_on :: "stmt \<Rightarrow> symbol_id list \<Rightarrow> bool" where
  "depends_on s vars = (\<exists>v \<in> set vars. depends_on_stmt s v)"

section \<open>Bounds inference (\<^verbatim>\<open>infer_bounds.cc\<close>, the code part of \<^verbatim>\<open>README.md\<close>)\<close>

subsection \<open>\<^verbatim>\<open>substitute\<close>\<close>

text \<open>
  Modelled from the spec: \<^verbatim>\<open>substitute\<close> (\<^verbatim>\<open>substitute.h\<close>) is not among the sources. Section
  4.2: it replaces every structural occurrence of the target, a variable or a whole
  expression, by the replacement, respecting the shadowing of an inner \<^verbatim>\<open>let\<close>: the body of a
  \<^verbatim>\<open>let\<close> that binds a symbol of the target is left as it is. The overload that takes a
  symbol is \<open>substitute e (variable sym) r\<close>. A null handle stays null.
\<close>

fun substitute :: "expr \<Rightarrow> expr \<Rightarrow> expr \<Rightarrow> expr" where
  "substitute expr_undefined target r = expr_undefined"
| "substitute (variable s) target r = (if variable s = target then r else variable s)"
| "substitute (wildcard s) target r = (if wildcard s = target then r else wildcard s)"
| "substitute (constant_expr c) target r = (if constant_expr c = target then r else constant_expr c)"
| "substitute (let_expr s v b) target r =
     (if let_expr s v b = target then r
      else let_expr s (substitute v target r)
             (if depends_on_expr target s then b else substitute b target r))"
| "substitute (binary oper a b) target r =
     (if binary oper a b = target then r
      else binary oper (substitute a target r) (substitute b target r))"
| "substitute (logical_not a) target r =
     (if logical_not a = target then r else logical_not (substitute a target r))"
| "substitute (select c t f) target r =
     (if select c t f = target then r
      else select (substitute c target r) (substitute t target r) (substitute f target r))"
| "substitute (call f args) target r =
     (if call f args = target then r else call f (map (\<lambda>a. substitute a target r) args))"

text \<open>A list of substitutions applied one after the other, as the loops over them do.\<close>

fun substitute_all :: "expr \<Rightarrow> (expr \<times> expr) list \<Rightarrow> expr" where
  "substitute_all e [] = e"
| "substitute_all e ((target, r) # substitutions) =
     substitute_all (substitute e target r) substitutions"

subsection \<open>\<^verbatim>\<open>recursive_substitute\<close>\<close>

text \<open>
  One round of the loop over the dimensions: every dimension has all the substitutions
  applied to its four expressions. \<^verbatim>\<open>same_as\<close> compares handles, and \<^verbatim>\<open>substitute\<close> hands
  back the expression it was given when it replaced nothing, so a dimension has changed
  when the new one differs. The \<^verbatim>\<open>while (true)\<close> need not end: not returning is \<open>None\<close>.
\<close>

definition substitute_dim :: "(expr \<times> expr) list \<Rightarrow> dim_expr \<Rightarrow> dim_expr" where
  "substitute_dim substitutions d =
     \<lparr>bounds = \<lparr>imin = substitute_all (imin (bounds d)) substitutions,
                imax = substitute_all (imax (bounds d)) substitutions\<rparr>,
      stride = substitute_all (stride d) substitutions,
      fold_factor = substitute_all (fold_factor d) substitutions\<rparr>"

partial_function (option) recursive_substitute ::
  "dim_expr list \<Rightarrow> (expr \<times> expr) list \<Rightarrow> dim_expr list option" where
  "recursive_substitute dims substitutions =
     (let new_dims = map (substitute_dim substitutions) dims
      in if new_dims = dims then Some dims else recursive_substitute new_dims substitutions)"

subsection \<open>The pass\<close>

record bounds_inferrer =
  infer :: "box_expr symbol_map"
  crops :: "box_expr symbol_map"

text \<open>
  What a pass can end in besides a result: the two errors above, or no return at all
  (the loop of \<^verbatim>\<open>recursive_substitute\<close>).
\<close>

datatype failure = stopped error | no_return

text \<open>
  \<^verbatim>\<open>static_cast<index_t>(op->elem_size)\<close>: the member is a \<^verbatim>\<open>std::size_t\<close> and \<^verbatim>\<open>index_t\<close> the
  signed type of the same width, 64 bits; the cast wraps around, so that \<open>2 ^ 63\<close> becomes
  \<open>- (2 ^ 63)\<close>.
\<close>

definition to_index_t :: "nat \<Rightarrow> index_t" where
  "to_index_t n =
     (let m = int n mod 2 ^ 64 in if m < 2 ^ 63 then m else m - 2 ^ 64)"

text \<open>
  \<^verbatim>\<open>visit(const allocate*)\<close>: the substitutions built from the inferred bounds, dimension
  \<open>d\<close> onwards, with the running stride.
\<close>

fun allocate_substitutions :: "expr \<Rightarrow> nat \<Rightarrow> expr \<Rightarrow> box_expr \<Rightarrow> (expr \<times> expr) list" where
  "allocate_substitutions alloc_var d strd [] = []"
| "allocate_substitutions alloc_var d strd (bounds_d # rest) =
     [(buffer_min alloc_var d, imin bounds_d),
      (buffer_max alloc_var d, imax bounds_d),
      (buffer_stride alloc_var d, strd),
      (buffer_extent alloc_var d, extent bounds_d)]
     @ allocate_substitutions alloc_var (d + 1)
         (mul strd (min_expr (extent bounds_d) (buffer_fold_factor alloc_var d))) rest"

definition substitute_interval :: "(expr \<times> expr) list \<Rightarrow> interval_expr \<Rightarrow> interval_expr" where
  "substitute_interval substitutions j =
     \<lparr>imin = substitute_all (imin j) substitutions, imax = substitute_all (imax j) substitutions\<rparr>"

text \<open>\<^verbatim>\<open>visit(const call_stmt*)\<close>: the loop over the inputs.\<close>

fun record_bounds :: "bounds_inferrer \<Rightarrow> symbol_id list \<Rightarrow> bounds_inferrer" where
  "record_bounds st [] = st"
| "record_bounds st (input # inputs) =
     record_bounds
       (if lookup (infer st) input \<noteq> None
        then st\<lparr>infer := assign (infer st) input (lookup (crops st) input)\<rparr> else st)
       inputs"

text \<open>
  \<^verbatim>\<open>visit(const loop*)\<close>, on leaving the body: what becomes of one interval, and the loop
  over the buffers, from buffer \<open>buf\<close> on. \<^verbatim>\<open>simplify\<close> is not among the sources: its two
  entry points for \<open>min\<close> and \<open>max\<close> are the parameters \<open>smin\<close> and \<open>smax\<close>.
\<close>

definition loop_interval ::
  "(expr \<Rightarrow> expr \<Rightarrow> expr) \<Rightarrow> (expr \<Rightarrow> expr \<Rightarrow> expr) \<Rightarrow> symbol_id \<Rightarrow> interval_expr
     \<Rightarrow> interval_expr \<Rightarrow> interval_expr" where
  "loop_interval smin smax name bnds j =
     \<lparr>imin = (if depends_on_expr (imin j) name
              then smin (substitute (imin j) (variable name) (imin bnds))
                        (substitute (imin j) (variable name) (imax bnds))
              else imin j),
      imax = (if depends_on_expr (imax j) name
              then smax (substitute (imax j) (variable name) (imin bnds))
                        (substitute (imax j) (variable name) (imax bnds))
              else imax j)\<rparr>"

fun loop_crops ::
  "(interval_expr \<Rightarrow> interval_expr) \<Rightarrow> symbol_id \<Rightarrow> box_expr symbol_map \<Rightarrow> stmt
     \<Rightarrow> box_expr symbol_map \<times> stmt" where
  "loop_crops f buf [] result = ([], result)"
| "loop_crops f buf (None # m) result =
     (let (m', r) = loop_crops f (buf + 1) m result in (None # m', r))"
| "loop_crops f buf (Some inferring # m) result =
     (let (m', r) = loop_crops f (buf + 1) m (crop_buffer buf (map f inferring) result)
      in (Some (map f inferring) # m', r))"

text \<open>
  The mutator of \<^verbatim>\<open>bounds_inferrer\<close>. The visits of \<^verbatim>\<open>allocate\<close>, \<^verbatim>\<open>call_stmt\<close>, \<^verbatim>\<open>copy_stmt\<close>,
  \<^verbatim>\<open>crop_buffer\<close>, \<^verbatim>\<open>crop_dim\<close>, \<^verbatim>\<open>loop\<close> and the three aborting ones are those of the class.
  The checks of \<^verbatim>\<open>visit(const allocate*)\<close> are commented out in the source, so its list of
  checks is empty and the result is \<^verbatim>\<open>block::make(block::make({}), s)\<close>.

  Modelled from the spec: the visits of \<^verbatim>\<open>block\<close>, \<^verbatim>\<open>let_stmt\<close>, \<^verbatim>\<open>if_then_else\<close>,
  \<^verbatim>\<open>make_buffer\<close> and \<^verbatim>\<open>check\<close>, and the \<^verbatim>\<open>node_mutator::visit\<close> the two crops end with, are
  the defaults of \<^verbatim>\<open>node_mutator\<close> (not among the sources): mutate the children, rebuild
  the node (section 9).
\<close>

fun infer_mutate ::
  "(expr \<Rightarrow> expr \<Rightarrow> expr) \<Rightarrow> (expr \<Rightarrow> expr \<Rightarrow> expr) \<Rightarrow> bounds_inferrer \<Rightarrow> stmt
     \<Rightarrow> failure + (stmt \<times> bounds_inferrer)" where
  "infer_mutate smin smax st stmt_undefined = Inr (stmt_undefined, st)"
| "infer_mutate smin smax st (block a b) =
     (case infer_mutate smin smax st a of
        Inl e \<Rightarrow> Inl e
      | Inr (a', st1) \<Rightarrow>
          (case infer_mutate smin smax st1 b of
             Inl e \<Rightarrow> Inl e
           | Inr (b', st2) \<Rightarrow> Inr (block a' b', st2)))"
| "infer_mutate smin smax st (let_stmt name v body) =
     (case infer_mutate smin smax st body of
        Inl e \<Rightarrow> Inl e
      | Inr (body', st1) \<Rightarrow> Inr (let_stmt name v body', st1))"
| "infer_mutate smin smax st (loop name mode bnds step body) =
     (case infer_mutate smin smax st body of
        Inl e \<Rightarrow> Inl e
      | Inr (body', st1) \<Rightarrow>
          (let (m, result) = loop_crops (loop_interval smin smax name bnds) 0 (infer st1)
                               (loop name mode bnds step body')
           in Inr (result, st1\<lparr>infer := m\<rparr>)))"
| "infer_mutate smin smax st (if_then_else c t f) =
     (case infer_mutate smin smax st t of
        Inl e \<Rightarrow> Inl e
      | Inr (t', st1) \<Rightarrow>
          (case infer_mutate smin smax st1 f of
             Inl e \<Rightarrow> Inl e
           | Inr (f', st2) \<Rightarrow> Inr (if_then_else c t' f', st2)))"
| "infer_mutate smin smax st (call_stmt target inputs outputs) =
     Inr (call_stmt target inputs outputs, record_bounds st inputs)"
| "infer_mutate smin smax st (copy_stmt src src_x dst padding) =
     Inr (copy_stmt src src_x dst padding, record_bounds st [src])"
| "infer_mutate smin smax st (allocate storage name elem_size dims body) =
     (let old = lookup (infer st) name;
          st0 = st\<lparr>infer := assign (infer st) name (Some [])\<rparr>
      in case infer_mutate smin smax st0 body of
           Inl e \<Rightarrow> Inl e
         | Inr (body', st1) \<Rightarrow>
             (case lookup (infer st1) name of
                None \<Rightarrow> Inl (stopped absent_entry)
              | Some bnds \<Rightarrow>
                  (let substitutions =
                         allocate_substitutions (variable name) 0 (constant_expr (to_index_t elem_size)) bnds
                   in (case recursive_substitute dims substitutions of
                         None \<Rightarrow> Inl no_return
                       | Some dims' \<Rightarrow>
                           (let m = map (map_option (map (substitute_interval substitutions))) (infer st1)
                            in Inr (block (block_make []) (allocate storage name elem_size dims' body'),
                                    st1\<lparr>infer := assign m name old\<rparr>))))))"
| "infer_mutate smin smax st (make_buffer name base elem_size dims body) =
     (case infer_mutate smin smax st body of
        Inl e \<Rightarrow> Inl e
      | Inr (body', st1) \<Rightarrow> Inr (make_buffer name base elem_size dims body', st1))"
| "infer_mutate smin smax st (crop_buffer name bnds body) =
     (let old = lookup (crops st) name;
          st0 = st\<lparr>crops := assign (crops st) name (merge_crop old bnds)\<rparr>
      in case infer_mutate smin smax st0 body of
           Inl e \<Rightarrow> Inl e
         | Inr (body', st1) \<Rightarrow>
             Inr (crop_buffer name bnds body', st1\<lparr>crops := assign (crops st1) name old\<rparr>))"
| "infer_mutate smin smax st (crop_dim name dim bnds body) =
     (let old = lookup (crops st) name;
          st0 = st\<lparr>crops := assign (crops st) name (merge_crop_dim old dim bnds)\<rparr>
      in case infer_mutate smin smax st0 body of
           Inl e \<Rightarrow> Inl e
         | Inr (body', st1) \<Rightarrow>
             Inr (crop_dim name dim bnds body', st1\<lparr>crops := assign (crops st1) name old\<rparr>))"
| "infer_mutate smin smax st (slice_buffer name at body) = Inl (stopped aborted)"
| "infer_mutate smin smax st (slice_dim name dim at body) = Inl (stopped aborted)"
| "infer_mutate smin smax st (truncate_rank name rank body) = Inl (stopped aborted)"
| "infer_mutate smin smax st (check c) = Inr (check c, st)"

text \<open>
  \<^verbatim>\<open>infer_bounds(s, inputs)\<close> of the anonymous namespace: the entries of the inputs are
  set to the empty box, the statement is mutated, and the checks of every input and every
  dimension of its inferred box are put in front. \<^verbatim>\<open>*infer.infer[i]\<close> dereferences the
  entry of the input.
\<close>

fun set_inputs :: "box_expr symbol_map \<Rightarrow> symbol_id list \<Rightarrow> box_expr symbol_map" where
  "set_inputs m [] = m"
| "set_inputs m (i # inputs) = set_inputs (assign m i (Some [])) inputs"

fun input_checks_from :: "expr \<Rightarrow> nat \<Rightarrow> box_expr \<Rightarrow> stmt list" where
  "input_checks_from buf_var d [] = []"
| "input_checks_from buf_var d (bounds_d # rest) =
     [check (less_equal (buffer_min buf_var d) (imin bounds_d)),
      check (greater_equal (buffer_max buf_var d) (imax bounds_d)),
      check (less_equal (extent bounds_d) (buffer_fold_factor buf_var d))]
     @ input_checks_from buf_var (d + 1) rest"

fun input_checks :: "box_expr symbol_map \<Rightarrow> symbol_id list \<Rightarrow> error + stmt list" where
  "input_checks m [] = Inr []"
| "input_checks m (i # inputs) =
     (case lookup m i of
        None \<Rightarrow> Inl absent_entry
      | Some bnds \<Rightarrow>
          (case input_checks m inputs of
             Inl e \<Rightarrow> Inl e
           | Inr checks \<Rightarrow> Inr (input_checks_from (variable i) 0 bnds @ checks)))"

definition infer_bounds ::
  "(expr \<Rightarrow> expr \<Rightarrow> expr) \<Rightarrow> (expr \<Rightarrow> expr \<Rightarrow> expr) \<Rightarrow> stmt \<Rightarrow> symbol_id list \<Rightarrow> failure + stmt" where
  "infer_bounds smin smax s inputs =
     (case infer_mutate smin smax \<lparr>infer = set_inputs [] inputs, crops = []\<rparr> s of
        Inl e \<Rightarrow> Inl e
      | Inr (result, st) \<Rightarrow>
          (case input_checks (infer st) inputs of
             Inl e \<Rightarrow> Inl (stopped e)
           | Inr checks \<Rightarrow> Inr (block (block_make checks) result)))"

text \<open>Expressions without a \<^verbatim>\<open>let\<close> node.\<close>

fun let_free :: "expr \<Rightarrow> bool" where
  "let_free (let_expr s v b) = False"
| "let_free (binary oper a b) = (let_free a \<and> let_free b)"
| "let_free (logical_not a) = let_free a"
| "let_free (select c t f) = (let_free c \<and> let_free t \<and> let_free f)"
| "let_free (call f args) = (\<forall>a \<in> set args. let_free a)"
| "let_free e = True"

section \<open>Sliding window and storage folding (\<^verbatim>\<open>infer_bounds.cc\<close>)\<close>

text \<open>
  What the pass takes from headers that are not among the sources, as parameters:
  \<^verbatim>\<open>prove_true\<close>, \<^verbatim>\<open>where_true\<close>, \<^verbatim>\<open>bounds_of\<close> and \<^verbatim>\<open>simplify\<close> of the simplifier, \<^verbatim>\<open>align_up\<close>,
  and \<^verbatim>\<open>substitute_bounds\<close> on an expression.
\<close>

record simplifier =
  prove_true :: "expr \<Rightarrow> bool"
  where_true :: "expr \<Rightarrow> symbol_id \<Rightarrow> interval_expr"
  bounds_of :: "expr \<Rightarrow> interval_expr"
  simplify :: "expr \<Rightarrow> expr"
  align_up :: "expr \<Rightarrow> expr \<Rightarrow> expr"
  substitute_bounds :: "expr \<Rightarrow> symbol_id \<Rightarrow> box_expr \<Rightarrow> expr"

text \<open>
  Modelled from the spec: the infinities are the calls of the intrinsics
  \<^verbatim>\<open>PositiveInfinity\<close> and \<^verbatim>\<open>NegativeInfinity\<close> of section 3.2, without arguments, and
  \<^verbatim>\<open>is_variable(e, sym)\<close> holds of the variable \<open>sym\<close>; \<^verbatim>\<open>interval_expr::empty()\<close> is
  \<open>min > max\<close> (section 4.4). Their definitions are not among the sources.
\<close>

definition positive_infinity :: expr where
  "positive_infinity = call positive_infinity_fn []"

definition is_positive_infinity :: "expr \<Rightarrow> bool" where
  "is_positive_infinity e = (e = call positive_infinity_fn [])"

definition is_negative_infinity :: "expr \<Rightarrow> bool" where
  "is_negative_infinity e = (e = call negative_infinity_fn [])"

definition is_variable :: "expr \<Rightarrow> symbol_id \<Rightarrow> bool" where
  "is_variable e name = (e = variable name)"

definition empty_interval :: "interval_expr \<Rightarrow> expr" where
  "empty_interval i = greater (imin i) (imax i)"

text \<open>
  \<^verbatim>\<open>loop_info\<close> and the state of the pass. The members \<^verbatim>\<open>sym\<close>, \<^verbatim>\<open>bounds\<close> and \<^verbatim>\<open>step\<close> of
  \<^verbatim>\<open>loop_info\<close> and the member \<^verbatim>\<open>buffer_bounds\<close> of the pass carry a prefix or a suffix here,
  their names being taken.
\<close>

record loop_info =
  loop_sym :: symbol_id
  orig_min :: expr
  loop_bounds :: interval_expr
  loop_step :: expr

record slide_and_fold_storage =
  buffer_bounds_sf :: "box_expr symbol_map"
  fold_factors :: "(nat \<times> expr) symbol_map"
  loops :: "loop_info list"

text \<open>
  \<^verbatim>\<open>substitute_bounds(box_expr&, const symbol_map<box_expr>&)\<close>: for every buffer \<open>i\<close> of the
  map, from \<open>i\<close> on, the defined bounds of the box go through \<^verbatim>\<open>substitute_bounds\<close>.
\<close>

fun substitute_bounds_box ::
  "simplifier \<Rightarrow> symbol_id \<Rightarrow> box_expr symbol_map \<Rightarrow> box_expr \<Rightarrow> box_expr" where
  "substitute_bounds_box h i [] bnds = bnds"
| "substitute_bounds_box h i (None # buffers) bnds = substitute_bounds_box h (i + 1) buffers bnds"
| "substitute_bounds_box h i (Some b # buffers) bnds =
     substitute_bounds_box h (i + 1) buffers
       (map (\<lambda>j. \<lparr>imin = (if defined (imin j) then substitute_bounds h (imin j) i b else imin j),
                    imax = (if defined (imax j) then substitute_bounds h (imax j) i b else imax j)\<rparr>)
            bnds)"

text \<open>
  \<^verbatim>\<open>visit_call_or_copy\<close>, the body of the loop over the dimensions, for the output
  \<open>output\<close> with box \<open>bnds\<close>, the loop \<open>lp\<close> of the stack and the dimension \<open>d\<close> (both in
  range, as the loops around it have them). The result says whether the loop over the
  dimensions was left by \<^verbatim>\<open>break\<close>. \<open>x\<close> is the symbol of the
  unknown the pass takes from the \<^verbatim>\<open>node_context\<close>.
\<close>

definition ignore_loop_max :: "expr \<Rightarrow> expr \<Rightarrow> expr" where
  "ignore_loop_max loop_max e = substitute e loop_max positive_infinity"

definition slide_dim ::
  "simplifier \<Rightarrow> symbol_id \<Rightarrow> symbol_id \<Rightarrow> nat \<Rightarrow> nat \<Rightarrow> box_expr \<times> slide_and_fold_storage
     \<Rightarrow> bool \<times> box_expr \<times> slide_and_fold_storage" where
  "slide_dim h x output lp d = (\<lambda>(bnds, st).
     let l = loops st ! lp;
         name = loop_sym l;
         loop_var = variable name;
         loop_max = imax (loop_bounds l);
         cur_bounds_d = bnds ! d
     in if \<not> depends_on_interval cur_bounds_d name then (False, bnds, st)
        else
          let prev_bounds_d =
                \<lparr>imin = substitute (imin cur_bounds_d) (variable name) (sub loop_var (loop_step l)),
                 imax = substitute (imax cur_bounds_d) (variable name) (sub loop_var (loop_step l))\<rparr>;
              overlap = interval_and prev_bounds_d cur_bounds_d
          in if prove_true h (ignore_loop_max loop_max (empty_interval overlap)) then
               (let ff = simplify h (imax (bounds_of h (ignore_loop_max loop_max (extent cur_bounds_d))))
                in (False, bnds,
                    if \<not> depends_on_expr ff name
                    then st\<lparr>fold_factors := assign (fold_factors st) output (Some (d, ff))\<rparr>
                    else st))
             else if prove_true h (ignore_loop_max loop_max
                       (logical_and (less_equal (imin prev_bounds_d) (imin cur_bounds_d))
                                    (less_equal (imax prev_bounds_d) (imax cur_bounds_d)))) then
               (let old_min = imin cur_bounds_d;
                    new_min = simplify h (add (imax prev_bounds_d) (constant_expr 1));
                    ff = simplify h (imax (bounds_of h (ignore_loop_max loop_max (extent cur_bounds_d))));
                    st1 = (if \<not> depends_on_expr ff name
                           then st\<lparr>fold_factors := assign (fold_factors st) output
                                      (Some (d, simplify h (align_up h ff (loop_step l))))\<rparr>
                           else st);
                    new_min_at_new_loop_min = substitute new_min (variable name) (variable x);
                    old_min_at_loop_min = substitute old_min (variable name) (imin (loop_bounds l));
                    new_loop_min =
                      imax (where_true h
                              (ignore_loop_max loop_max
                                 (less_equal new_min_at_new_loop_min old_min_at_loop_min)) x)
                in if \<not> is_negative_infinity new_loop_min then
                     (True,
                      bnds[d := cur_bounds_d\<lparr>imin := new_min\<rparr>],
                      st1\<lparr>loops := (loops st1)[lp := l\<lparr>loop_bounds := (loop_bounds l)\<lparr>imin := new_loop_min\<rparr>\<rparr>]\<rparr>)
                   else
                     (True,
                      bnds[d := cur_bounds_d\<lparr>imin := select (equal loop_var (orig_min l)) old_min new_min\<rparr>],
                      st1))
             else (False, bnds, st))"

text \<open>
  The three loops of \<^verbatim>\<open>visit_call_or_copy\<close>: over the dimensions (left by \<^verbatim>\<open>break\<close> after a
  slide), over the loops of the stack, and over the outputs. \<^verbatim>\<open>bounds\<close> is a reference to
  the entry of the output in \<^verbatim>\<open>buffer_bounds\<close>: the box is threaded through the loops and
  written back to the entry.
\<close>

fun slide_dims ::
  "simplifier \<Rightarrow> symbol_id \<Rightarrow> symbol_id \<Rightarrow> nat \<Rightarrow> nat list \<Rightarrow> box_expr \<times> slide_and_fold_storage
     \<Rightarrow> box_expr \<times> slide_and_fold_storage" where
  "slide_dims h x output lp [] s = s"
| "slide_dims h x output lp (d # ds) s =
     (case slide_dim h x output lp d s of
        (True, s1) \<Rightarrow> s1
      | (False, s1) \<Rightarrow> slide_dims h x output lp ds s1)"

text \<open>
  The values the body of the loop over the dimensions computes, under the names the source
  gives them, for the entry \<open>l\<close> of the stack and the bounds \<open>cur\<close> of the dimension:
  \<^verbatim>\<open>prev_bounds_d\<close>; the first test, \<^verbatim>\<open>prove_true(ignore_loop_max(overlap.empty()))\<close>, with
  \<^verbatim>\<open>overlap = prev_bounds_d & cur_bounds_d\<close>; the second test,
  \<^verbatim>\<open>prove_true(ignore_loop_max(is_monotonic_increasing))\<close>; \<^verbatim>\<open>fold_factor\<close> before it is aligned;
  \<^verbatim>\<open>new_min\<close>; and \<^verbatim>\<open>new_loop_min\<close>.
\<close>

definition prev_bounds_d :: "loop_info \<Rightarrow> interval_expr \<Rightarrow> interval_expr" where
  "prev_bounds_d l cur =
     \<lparr>imin = substitute (imin cur) (variable (loop_sym l)) (sub (variable (loop_sym l)) (loop_step l)),
      imax = substitute (imax cur) (variable (loop_sym l)) (sub (variable (loop_sym l)) (loop_step l))\<rparr>"









fun slide_loops ::
  "simplifier \<Rightarrow> symbol_id \<Rightarrow> symbol_id \<Rightarrow> nat list \<Rightarrow> box_expr \<times> slide_and_fold_storage
     \<Rightarrow> box_expr \<times> slide_and_fold_storage" where
  "slide_loops h x output [] s = s"
| "slide_loops h x output (lp # lps) s =
     slide_loops h x output lps (slide_dims h x output lp [0..<length (fst s)] s)"

fun visit_call_or_copy ::
  "simplifier \<Rightarrow> symbol_id \<Rightarrow> symbol_id list \<Rightarrow> slide_and_fold_storage \<Rightarrow> slide_and_fold_storage" where
  "visit_call_or_copy h x [] st = st"
| "visit_call_or_copy h x (output # outputs) st =
     visit_call_or_copy h x outputs
       (case lookup (buffer_bounds_sf st) output of
          None \<Rightarrow> st
        | Some bnds \<Rightarrow>
            (let (bnds', st1) = slide_loops h x output [0..<length (loops st)] (bnds, st)
             in st1\<lparr>buffer_bounds_sf := assign (buffer_bounds_sf st1) output (Some bnds')\<rparr>))"

text \<open>
  \<^verbatim>\<open>visit(const allocate*)\<close>: the replacements of the fold factors, dimension \<open>d\<close> onwards,
  and the erasure of the infinite ones.
\<close>

fun fold_replacements :: "expr \<Rightarrow> (nat \<times> expr) option \<Rightarrow> nat \<Rightarrow> nat \<Rightarrow> (expr \<times> expr) list" where
  "fold_replacements alloc_var fold_info d 0 = []"
| "fold_replacements alloc_var fold_info d (Suc n) =
     (buffer_fold_factor alloc_var d,
      (case fold_info of
         Some (fd, ff) \<Rightarrow> if fd = d then ff else positive_infinity
       | None \<Rightarrow> positive_infinity))
     # fold_replacements alloc_var fold_info (d + 1) n"

definition erase_infinite_fold :: "dim_expr \<Rightarrow> dim_expr" where
  "erase_infinite_fold d =
     (if is_positive_infinity (fold_factor d) then d\<lparr>fold_factor := expr_undefined\<rparr> else d)"

text \<open>
  The mutator of \<^verbatim>\<open>slide_and_fold_storage\<close>. \<open>min_orig\<close> gives, for the symbol of a loop, the
  symbol the \<^verbatim>\<open>node_context\<close> holds for the name of the loop followed by \<^verbatim>\<open>.min_orig\<close>. The
  visits of \<^verbatim>\<open>allocate\<close>, \<^verbatim>\<open>call_stmt\<close>, \<^verbatim>\<open>copy_stmt\<close>, \<^verbatim>\<open>crop_buffer\<close>, \<^verbatim>\<open>crop_dim\<close>, \<^verbatim>\<open>loop\<close>,
  \<^verbatim>\<open>block\<close> (the second statement first) and the three aborting ones are those of the class;
  \<^verbatim>\<open>crop_dim\<close> dereferences the merged bounds and indexes them by the dimension, and
  \<^verbatim>\<open>loop\<close> reads \<^verbatim>\<open>loops.back()\<close>. \<^verbatim>\<open>loop_min.same_as(orig_min)\<close> holds of the variable
  \<open>orig_min\<close> the visit pushed.

  Modelled from the spec: \<^verbatim>\<open>node_mutator::visit\<close> of a parallel loop and the visits of
  \<^verbatim>\<open>let_stmt\<close>, \<^verbatim>\<open>if_then_else\<close>, \<^verbatim>\<open>make_buffer\<close> and \<^verbatim>\<open>check\<close> are the defaults of
  \<^verbatim>\<open>node_mutator\<close> (not among the sources): mutate the children, rebuild the node.
\<close>

fun slide_mutate ::
  "simplifier \<Rightarrow> symbol_id \<Rightarrow> (symbol_id \<Rightarrow> symbol_id) \<Rightarrow> slide_and_fold_storage \<Rightarrow> stmt
     \<Rightarrow> failure + (stmt \<times> slide_and_fold_storage)" where
  "slide_mutate h x min_orig st stmt_undefined = Inr (stmt_undefined, st)"
| "slide_mutate h x min_orig st (block a b) =
     (case slide_mutate h x min_orig st b of
        Inl e \<Rightarrow> Inl e
      | Inr (b', st1) \<Rightarrow>
          (case slide_mutate h x min_orig st1 a of
             Inl e \<Rightarrow> Inl e
           | Inr (a', st2) \<Rightarrow> Inr (block a' b', st2)))"
| "slide_mutate h x min_orig st (let_stmt name v body) =
     (case slide_mutate h x min_orig st body of
        Inl e \<Rightarrow> Inl e
      | Inr (body', st1) \<Rightarrow> Inr (let_stmt name v body', st1))"
| "slide_mutate h x min_orig st (loop name mode bnds step body) =
     (if mode = parallel then
        (case slide_mutate h x min_orig st body of
           Inl e \<Rightarrow> Inl e
         | Inr (body', st1) \<Rightarrow> Inr (loop name mode bnds step body', st1))
      else
        (let om = variable (min_orig name);
             st0 = st\<lparr>loops := loops st @ [\<lparr>loop_sym = name, orig_min = om,
                                            loop_bounds = \<lparr>imin = om, imax = imax bnds\<rparr>,
                                            loop_step = step\<rparr>]\<rparr>
         in case slide_mutate h x min_orig st0 body of
              Inl e \<Rightarrow> Inl e
            | Inr (body', st1) \<Rightarrow>
                (if loops st1 = [] then Inl (stopped out_of_range)
                 else
                   (let back_min = imin (loop_bounds (last (loops st1)));
                        st2 = st1\<lparr>loops := butlast (loops st1)\<rparr>;
                        loop_min = (if back_min = om then imin bnds else back_min)
                    in if \<not> is_variable loop_min (min_orig name)
                          \<or> depends_on_stmt body' (min_orig name)
                       then Inr (let_stmt (min_orig name) (imin bnds)
                                   (loop name mode \<lparr>imin = loop_min, imax = imax bnds\<rparr> step body'),
                                 st2)
                       else Inr (loop name mode bnds step body', st2)))))"
| "slide_mutate h x min_orig st (if_then_else c t f) =
     (case slide_mutate h x min_orig st t of
        Inl e \<Rightarrow> Inl e
      | Inr (t', st1) \<Rightarrow>
          (case slide_mutate h x min_orig st1 f of
             Inl e \<Rightarrow> Inl e
           | Inr (f', st2) \<Rightarrow> Inr (if_then_else c t' f', st2)))"
| "slide_mutate h x min_orig st (call_stmt target inputs outputs) =
     Inr (call_stmt target inputs outputs, visit_call_or_copy h x outputs st)"
| "slide_mutate h x min_orig st (copy_stmt src src_x dst padding) =
     Inr (copy_stmt src src_x dst padding, visit_call_or_copy h x [dst] st)"
| "slide_mutate h x min_orig st (allocate storage name elem_size dims body) =
     (let old = lookup (buffer_bounds_sf st) name;
          st0 = st\<lparr>buffer_bounds_sf := assign (buffer_bounds_sf st) name (Some (map bounds dims))\<rparr>
      in case slide_mutate h x min_orig st0 body of
           Inl e \<Rightarrow> Inl e
         | Inr (body', st1) \<Rightarrow>
             (case recursive_substitute dims
                     (fold_replacements (variable name) (lookup (fold_factors st1) name) 0 (length dims)) of
                None \<Rightarrow> Inl no_return
              | Some dims' \<Rightarrow>
                  Inr (allocate storage name elem_size (map erase_infinite_fold dims') body',
                       st1\<lparr>buffer_bounds_sf := assign (buffer_bounds_sf st1) name old\<rparr>)))"
| "slide_mutate h x min_orig st (make_buffer name base elem_size dims body) =
     (case slide_mutate h x min_orig st body of
        Inl e \<Rightarrow> Inl e
      | Inr (body', st1) \<Rightarrow> Inr (make_buffer name base elem_size dims body', st1))"
| "slide_mutate h x min_orig st (crop_buffer name bnds body) =
     (let old = lookup (buffer_bounds_sf st) name;
          merged = map_option (substitute_bounds_box h 0 (buffer_bounds_sf st)) (merge_crop old bnds);
          st0 = st\<lparr>buffer_bounds_sf := assign (buffer_bounds_sf st) name merged\<rparr>
      in case slide_mutate h x min_orig st0 body of
           Inl e \<Rightarrow> Inl e
         | Inr (body', st1) \<Rightarrow>
             Inr (crop_buffer name
                    (case lookup (buffer_bounds_sf st1) name of Some new_bounds \<Rightarrow> new_bounds | None \<Rightarrow> bnds)
                    body',
                  st1\<lparr>buffer_bounds_sf := assign (buffer_bounds_sf st1) name old\<rparr>))"
| "slide_mutate h x min_orig st (crop_dim name dim bnds body) =
     (let old = lookup (buffer_bounds_sf st) name in
      case merge_crop_dim old dim bnds of
        None \<Rightarrow> Inl (stopped absent_entry)
      | Some merged \<Rightarrow>
          (let st0 = st\<lparr>buffer_bounds_sf := assign (buffer_bounds_sf st) name
                             (Some (substitute_bounds_box h 0 (buffer_bounds_sf st) merged))\<rparr>
           in case slide_mutate h x min_orig st0 body of
                Inl e \<Rightarrow> Inl e
              | Inr (body', st1) \<Rightarrow>
                  (case lookup (buffer_bounds_sf st1) name of
                     None \<Rightarrow> Inl (stopped absent_entry)
                   | Some new_box \<Rightarrow>
                       if dim < length new_box
                       then Inr (crop_dim name dim (new_box ! dim) body',
                                 st1\<lparr>buffer_bounds_sf := assign (buffer_bounds_sf st1) name old\<rparr>)
                       else Inl (stopped out_of_range))))"
| "slide_mutate h x min_orig st (slice_buffer name at body) = Inl (stopped aborted)"
| "slide_mutate h x min_orig st (slice_dim name dim at body) = Inl (stopped aborted)"
| "slide_mutate h x min_orig st (truncate_rank name rank body) = Inl (stopped aborted)"
| "slide_mutate h x min_orig st (check c) = Inr (check c, st)"

text \<open>Statements all of whose loops are parallel.\<close>

fun no_serial_loop :: "stmt \<Rightarrow> bool" where
  "no_serial_loop (block a b) = (no_serial_loop a \<and> no_serial_loop b)"
| "no_serial_loop (let_stmt name v body) = no_serial_loop body"
| "no_serial_loop (loop name mode bnds step body) = (mode = parallel \<and> no_serial_loop body)"
| "no_serial_loop (if_then_else c t f) = (no_serial_loop t \<and> no_serial_loop f)"
| "no_serial_loop (allocate storage name elem_size dims body) = no_serial_loop body"
| "no_serial_loop (make_buffer name base elem_size dims body) = no_serial_loop body"
| "no_serial_loop (crop_buffer name bnds body) = no_serial_loop body"
| "no_serial_loop (crop_dim name dim bnds body) = no_serial_loop body"
| "no_serial_loop (slice_buffer name at body) = no_serial_loop body"
| "no_serial_loop (slice_dim name dim at body) = no_serial_loop body"
| "no_serial_loop (truncate_rank name rank body) = no_serial_loop body"
| "no_serial_loop s = True"

subsection \<open>A simplifier for concrete runs\<close>

text \<open>
  Modelled from the spec: the simplifier (\<^verbatim>\<open>simplify.h\<close>) is not among the sources. Where a
  run of the pass is evaluated, its parameters are instantiated by the part of section 4.1
  that the runs need: constant folding (rule 1) and affine combination (rule 4) for
  \<^verbatim>\<open>simplify\<close>; comparisons of affine forms (rule 5), under nested \<open>min\<close> and \<open>max\<close> (rule 3),
  for \<^verbatim>\<open>prove_true\<close>; the largest solution of \<open>x + k \<le> b\<close> for \<^verbatim>\<open>where_true\<close>, and no solution
  (a maximum of negative infinity) otherwise; the expression itself as its own bounds for
  \<^verbatim>\<open>bounds_of\<close>, no bounds of variables being known; \<open>((x + a - 1) / a) * a\<close> for
  \<^verbatim>\<open>align_up\<close>; and, for \<^verbatim>\<open>substitute_bounds\<close>, section 4.2: \<open>buffer_min(sym, d)\<close>,
  \<open>buffer_max(sym, d)\<close> and \<open>buffer_extent(sym, d)\<close> replaced by the bounds of the box, where
  they are defined.

  \<open>linear e\<close> is the affine form of \<open>e\<close>: a constant and a list of terms, each a symbol with
  a coefficient; the coefficient of a symbol is the sum over its terms. Two affine forms
  with the same coefficients compare as their constants do. \<open>a \<le> b\<close> and \<open>a < b\<close> are proved
  when every operand of the nested \<open>max\<close> of \<open>a\<close> compares so with every operand of the
  nested \<open>min\<close> of \<open>b\<close>.
\<close>

fun linear :: "expr \<Rightarrow> (index_t \<times> (symbol_id \<times> index_t) list) option" where
  "linear (constant_expr c) = Some (c, [])"
| "linear (variable v) = Some (0, [(v, 1)])"
| "linear (binary oper a b) =
     (case (linear a, linear b) of
        (Some (ka, la), Some (kb, lb)) \<Rightarrow>
          (if oper = op_add then Some (ka + kb, la @ lb)
           else if oper = op_sub then Some (ka - kb, la @ map (\<lambda>(v, c). (v, - c)) lb)
           else if oper = op_mul \<and> la = [] then Some (ka * kb, map (\<lambda>(v, c). (v, ka * c)) lb)
           else if oper = op_mul \<and> lb = [] then Some (ka * kb, map (\<lambda>(v, c). (v, kb * c)) la)
           else None)
      | _ \<Rightarrow> None)"
| "linear e = None"

definition coefficient :: "symbol_id \<Rightarrow> (symbol_id \<times> index_t) list \<Rightarrow> index_t" where
  "coefficient v l = sum_list (map snd (filter (\<lambda>p. fst p = v) l))"

definition simplify_affine :: "expr \<Rightarrow> expr" where
  "simplify_affine e =
     (case eval Map.empty e of
        Some c \<Rightarrow> constant_expr c
      | None \<Rightarrow>
          (case linear e of
             Some (k, l) \<Rightarrow> if list_all (\<lambda>p. coefficient (fst p) l = 0) l then constant_expr k else e
           | None \<Rightarrow> e))"

definition compare_affine :: "bool \<Rightarrow> expr \<Rightarrow> expr \<Rightarrow> bool" where
  "compare_affine strict a b =
     (case (linear a, linear b) of
        (Some (ka, la), Some (kb, lb)) \<Rightarrow>
          (if strict then ka < kb else ka \<le> kb)
          \<and> list_all (\<lambda>p. coefficient (fst p) la = coefficient (fst p) lb) (la @ lb)
      | _ \<Rightarrow> False)"

fun max_operands :: "expr \<Rightarrow> expr list" where
  "max_operands (binary oper a b) =
     (if oper = op_max then max_operands a @ max_operands b else [binary oper a b])"
| "max_operands e = [e]"

fun min_operands :: "expr \<Rightarrow> expr list" where
  "min_operands (binary oper a b) =
     (if oper = op_min then min_operands a @ min_operands b else [binary oper a b])"
| "min_operands e = [e]"

definition prove_compare :: "bool \<Rightarrow> expr \<Rightarrow> expr \<Rightarrow> bool" where
  "prove_compare strict a b =
     list_all (\<lambda>p. list_all (\<lambda>q. compare_affine strict p q) (min_operands b)) (max_operands a)"

fun prove_true_affine :: "expr \<Rightarrow> bool" where
  "prove_true_affine (constant_expr c) = (c \<noteq> 0)"
| "prove_true_affine (binary oper a b) =
     (if oper = op_less_equal then prove_compare False a b
      else if oper = op_less then prove_compare True a b
      else if oper = op_logical_and then prove_true_affine a \<and> prove_true_affine b
      else False)"
| "prove_true_affine e = False"

definition negative_infinity :: expr where
  "negative_infinity = call negative_infinity_fn []"

definition where_true_affine :: "expr \<Rightarrow> symbol_id \<Rightarrow> interval_expr" where
  "where_true_affine e x =
     (case e of
        binary oper a b \<Rightarrow>
          (case linear a of
             Some (k, l) \<Rightarrow>
               if oper = op_less_equal \<and> coefficient x l = 1
                  \<and> list_all (\<lambda>p. fst p = x \<or> coefficient (fst p) l = 0) l
                  \<and> \<not> depends_on_expr b x
               then \<lparr>imin = negative_infinity, imax = sub b (constant_expr k)\<rparr>
               else \<lparr>imin = positive_infinity, imax = negative_infinity\<rparr>
           | None \<Rightarrow> \<lparr>imin = positive_infinity, imax = negative_infinity\<rparr>)
      | _ \<Rightarrow> \<lparr>imin = positive_infinity, imax = negative_infinity\<rparr>)"

definition align_up_expr :: "expr \<Rightarrow> expr \<Rightarrow> expr" where
  "align_up_expr x a = mul (binary op_div (add x (sub a (constant_expr 1))) a) a"

fun substitute_bounds_from :: "expr \<Rightarrow> expr \<Rightarrow> nat \<Rightarrow> box_expr \<Rightarrow> expr" where
  "substitute_bounds_from e buf d [] = e"
| "substitute_bounds_from e buf d (b # box) =
     substitute_bounds_from
       (let e1 = (if defined (imin b) then substitute e (buffer_min buf d) (imin b) else e);
            e2 = (if defined (imax b) then substitute e1 (buffer_max buf d) (imax b) else e1)
        in if defined (imin b) \<and> defined (imax b)
           then substitute e2 (buffer_extent buf d) (extent b) else e2)
       buf (d + 1) box"

definition affine_simplifier :: simplifier where
  "affine_simplifier =
     \<lparr>prove_true = prove_true_affine,
      where_true = where_true_affine,
      bounds_of = (\<lambda>e. \<lparr>imin = e, imax = e\<rparr>),
      simplify = simplify_affine,
      align_up = align_up_expr,
      substitute_bounds = (\<lambda>e name box. substitute_bounds_from e (variable name) 0 box)\<rparr>"

section \<open>Claim C1\<close>

text \<open>
  C1 says that the intersection operator of intervals yields
  \<open>[max(a.min, b.min), min(a.max, b.max)]\<close>, so that nested crops never expand a region.
  \<^verbatim>\<open>operator&=\<close> of \<^verbatim>\<open>interval.h\<close> builds \<open>min\<close> of the two minima and \<open>max\<close> of the two maxima,
  which is what the union operator above it builds: on \<open>[0, 10]\<close> and \<open>[5, 20]\<close> it gives
  an interval of value \<open>[0, 20]\<close>, where the intersection is \<open>[5, 10]\<close>.
\<close>

theorem interval_and_builds_the_union:
  "interval_and \<lparr>imin = constant_expr 0, imax = constant_expr 10\<rparr> \<lparr>imin = constant_expr 5, imax = constant_expr 20\<rparr>
     = \<lparr>imin = min_expr (constant_expr 0) (constant_expr 5), imax = max_expr (constant_expr 10) (constant_expr 20)\<rparr>
   \<and> eval Map.empty (imin (interval_and \<lparr>imin = constant_expr 0, imax = constant_expr 10\<rparr>
                                         \<lparr>imin = constant_expr 5, imax = constant_expr 20\<rparr>)) = Some 0
   \<and> eval Map.empty (imax (interval_and \<lparr>imin = constant_expr 0, imax = constant_expr 10\<rparr>
                                         \<lparr>imin = constant_expr 5, imax = constant_expr 20\<rparr>)) = Some 20
   \<and> interval_and \<lparr>imin = constant_expr 0, imax = constant_expr 10\<rparr> \<lparr>imin = constant_expr 5, imax = constant_expr 20\<rparr>
     = interval_or \<lparr>imin = constant_expr 0, imax = constant_expr 10\<rparr> \<lparr>imin = constant_expr 5, imax = constant_expr 20\<rparr>"
  by (simp add: interval_and_def interval_or_def min_expr_def max_expr_def)

section \<open>Claim C9\<close>

text \<open>
  C9 says that distinct node classes carry distinct tags, so that \<^verbatim>\<open>n.as<T>()\<close> is non-null
  exactly when \<open>n\<close> is a \<open>T\<close>. The header gives \<^verbatim>\<open>constant\<close> the tag of \<^verbatim>\<open>variable\<close>: a
  node constructed as a constant is returned by \<^verbatim>\<open>as<variable>()\<close>, and a node constructed
  as a variable is returned by \<^verbatim>\<open>as<constant>()\<close>.
\<close>

theorem constant_identified_as_variable:
  "as_node cls_variable (expr_node cls_constant) = Some (expr_node cls_constant)
   \<and> dyn_class (expr_node cls_constant) = cls_constant
   \<and> as_node cls_constant (expr_node cls_variable) = Some (expr_node cls_variable)
   \<and> dyn_class (expr_node cls_variable) = cls_variable
   \<and> static_type cls_constant = static_type cls_variable"
  by (simp add: as_node_def expr_node_def)

section \<open>Claims C5 and C10: the buffer aliaser\<close>

lemma lookup_assign: "lookup (assign m s v) s' = (if s' = s then v else lookup m s')"
  by (auto simp: lookup_def assign_def nth_append nth_list_update)

lemma lookup_erase_candidate:
  "lookup (erase_candidate t m) s =
     map_option (\<lambda>i. i\<lparr>alias_candidates := alias_candidates i |-| {|t|}\<rparr>) (lookup m s)"
  by (simp add: lookup_def erase_candidate_def)

text \<open>What \<^verbatim>\<open>is_elementwise\<close> tests, dimension by dimension.\<close>

lemma is_elementwise_from_iff:
  "is_elementwise_from k in_x out =
     (\<forall>d < length in_x. imin (in_x ! d) = buffer_min (variable out) (k + d)
                       \<and> imax (in_x ! d) = buffer_max (variable out) (k + d))"
proof (induction in_x arbitrary: k)
  case Nil
  then show ?case by simp
next
  case (Cons x xs)
  show ?case
    by (simp add: Cons.IH match_def All_less_Suc2)
qed

lemma call_stmt_inputs_bounds:
  "call_stmt_inputs st out inputs = Inr (r, st') \<Longrightarrow> buffer_bounds st' = buffer_bounds st"
  by (induction st out inputs rule: call_stmt_inputs.induct)
     (auto simp: Let_def split: option.splits if_splits)

text \<open>
  The visit of a call clears the flag of a buffer only when the buffer is an input of the
  call and its recorded region is absent or fails \<^verbatim>\<open>is_elementwise\<close> for the output.
\<close>

lemma call_stmt_inputs_clears:
  "call_stmt_inputs st out inputs = Inr (r, st') \<Longrightarrow>
   lookup (alias_info st) s = Some i \<Longrightarrow> elementwise i \<Longrightarrow>
   lookup (alias_info st') s = Some i' \<Longrightarrow> \<not> elementwise i' \<Longrightarrow>
   s \<in> set inputs \<and>
   (case lookup (buffer_bounds st) s of None \<Rightarrow> True | Some in_x \<Rightarrow> \<not> is_elementwise in_x out)"
proof (induction st out inputs arbitrary: i rule: call_stmt_inputs.induct)
  case (1 st out)
  then show ?case by simp
next
  case (2 st out x inputs)
  show ?case
  proof (cases "lookup (buffer_bounds st) x = None \<or> lookup (alias_info st) x = None")
    case True
    with "2.prems" show ?thesis
      by (auto simp: Let_def lookup_assign split: option.splits if_splits)
  next
    case False
    then obtain in_x info where b: "lookup (buffer_bounds st) x = Some in_x"
      and a: "lookup (alias_info st) x = Some info" by auto
    show ?thesis
    proof (cases "is_elementwise in_x out")
      case False
      with "2.prems" a b show ?thesis
        by (auto simp: Let_def lookup_assign split: if_splits)
    next
      case True
      define st2 where "st2 = st\<lparr>alias_info := assign (alias_info st) x
                 (Some (info\<lparr>alias_candidates := finsert out (alias_candidates info)\<rparr>))\<rparr>"
      have run: "call_stmt_inputs st2 out inputs = Inr (r, st')"
        using "2.prems"(1) a b True by (simp add: Let_def st2_def)
      obtain i2 where i2: "lookup (alias_info st2) s = Some i2" "elementwise i2"
        using "2.prems"(2,3) a by (cases "s = x") (auto simp: st2_def lookup_assign)
      have "s \<in> set inputs \<and>
            (case lookup (buffer_bounds st2) s of None \<Rightarrow> True
             | Some in_x \<Rightarrow> \<not> is_elementwise in_x out)"
        using "2.IH"[of "lookup (buffer_bounds st) x" "lookup (alias_info st) x" i2]
              a b True run i2 "2.prems"(4,5)
        by (simp add: st2_def)
      then show ?thesis by (simp add: st2_def)
    qed
  qed
qed

text \<open>
  C5: when the aliaser has visited the body of \<^verbatim>\<open>allocate(sym, ..., body)\<close> and the entry of
  \<open>sym\<close> in \<^verbatim>\<open>alias_info\<close> is still flagged elementwise and has a candidate, the visit
  returns \<^verbatim>\<open>let_stmt(sym, variable(target), body')\<close> with \<open>target\<close> the least candidate, records
  the alias, and leaves \<open>target\<close> in the candidate set of no other buffer. The elementwise
  test of a consumed region \<open>in_x\<close> against an output \<open>out\<close> is the structural equality of
  every dimension with \<open>[buffer_min(out, d), buffer_max(out, d)]\<close>.
\<close>

theorem aliaser_replaces_allocate:
  assumes body: "alias_mutate
            (st\<lparr>buffer_bounds := assign (buffer_bounds st) name (Some (map bounds dims)),
                alias_info := assign (alias_info st) name
                                (Some \<lparr>alias_candidates = {||}, elementwise = True\<rparr>)\<rparr>) body
          = Inr (body', st1)"
    and info: "lookup (alias_info st1) name = Some info"
    and ew: "elementwise info"
    and ne: "alias_candidates info \<noteq> {||}"
  shows "\<exists>st'. alias_mutate st (allocate storage name elem_size dims body)
                 = Inr (let_stmt name (variable (fMin (alias_candidates info))) body', st')
            \<and> fMin (alias_candidates info) |\<in>| alias_candidates info
            \<and> (\<forall>c. c |\<in>| alias_candidates info \<longrightarrow> fMin (alias_candidates info) \<le> c)
            \<and> lookup (aliases st') name = Some (fMin (alias_candidates info))
            \<and> (\<forall>other i. other \<noteq> name \<longrightarrow> lookup (alias_info st') other = Some i
                   \<longrightarrow> fMin (alias_candidates info) |\<notin>| alias_candidates i)
            \<and> is_elementwise in_x out =
                (\<forall>d < length in_x. imin (in_x ! d) = buffer_min (variable out) d
                                  \<and> imax (in_x ! d) = buffer_max (variable out) d)"
  using assms
  by (auto simp: Let_def lookup_assign lookup_erase_candidate is_elementwise_def
                 is_elementwise_from_iff)

theorem aliaser_replaces_allocate_witness:
  "\<exists>st'. alias_mutate \<lparr>alias_info = [], buffer_bounds = [], aliases = []\<rparr>
           (allocate heap 2 4
              [\<lparr>bounds = \<lparr>imin = buffer_min (variable 1) 0, imax = buffer_max (variable 1) 0\<rparr>,
                stride = expr_undefined, fold_factor = expr_undefined\<rparr>]
              (call_stmt 7 [2] [1]))
         = Inr (let_stmt 2 (variable 1) (call_stmt 7 [2] [1]), st')
       \<and> lookup (aliases st') 2 = Some 1"
proof -
  define b where "b = [\<lparr>imin = buffer_min (variable 1) 0, imax = buffer_max (variable 1) 0\<rparr>]"
  define st1 where
    "st1 = \<lparr>alias_info = [None, None, Some \<lparr>alias_candidates = {|1|}, elementwise = True\<rparr>],
            buffer_bounds = [None, None, Some b], aliases = []\<rparr>"
  have run: "alias_mutate
      (\<lparr>alias_info = [], buffer_bounds = [], aliases = []\<rparr>
        \<lparr>buffer_bounds := assign (buffer_bounds \<lparr>alias_info = [], buffer_bounds = [], aliases = []\<rparr>) 2
            (Some (map bounds
               [\<lparr>bounds = \<lparr>imin = buffer_min (variable 1) 0, imax = buffer_max (variable 1) 0\<rparr>,
                 stride = expr_undefined, fold_factor = expr_undefined\<rparr>])),
         alias_info := assign (alias_info \<lparr>alias_info = [], buffer_bounds = [], aliases = []\<rparr>) 2
            (Some \<lparr>alias_candidates = {||}, elementwise = True\<rparr>)\<rparr>)
      (call_stmt 7 [2] [1]) = Inr (call_stmt 7 [2] [1], st1)"
    by (simp add: st1_def b_def lookup_def assign_def is_elementwise_def match_def eval_nat_numeral)
  have info: "lookup (alias_info st1) 2 = Some \<lparr>alias_candidates = {|1|}, elementwise = True\<rparr>"
    by (simp add: st1_def lookup_def)
  from aliaser_replaces_allocate[OF run info, where storage = heap and elem_size = 4
      and in_x = "[]" and out = 0]
  show ?thesis by auto
qed

text \<open>
  C10 says that the visit of a \<^verbatim>\<open>call_stmt\<close> completes without dereferencing an absent
  entry when an input has no entry in \<^verbatim>\<open>alias_info\<close>. The visit tests \<^verbatim>\<open>!in_x || !info\<close>
  and then executes \<^verbatim>\<open>info->elementwise = false\<close> in that very branch: on the call of the
  first stage of a two-stage pipeline, whose input is a formal input of the pipeline, it
  dereferences the empty optional.
\<close>

theorem call_stmt_dereferences_absent_entry:
  "call_stmt_outputs \<lparr>alias_info = [], buffer_bounds = [], aliases = []\<rparr> [0] [2] = Inl absent_entry
   \<and> alias_buffers
       (allocate heap 2 4
          [\<lparr>bounds = \<lparr>imin = buffer_min (variable 2) 0, imax = buffer_max (variable 2) 0\<rparr>,
            stride = buffer_stride (variable 2) 0, fold_factor = buffer_fold_factor (variable 2) 0\<rparr>]
          (block (call_stmt 0 [0] [2]) (call_stmt 1 [2] [1]))) = Inl absent_entry"
  by (simp add: alias_buffers_def lookup_def assign_def)

section \<open>Claim C8: the scope reducer\<close>

lemma for_each_stmt_forward_leaves:
  "for_each_stmt_forward s fn acc = foldl (\<lambda>acc x. fn x acc) acc (leaves s)"
  by (induction s fn acc rule: for_each_stmt_forward.induct) simp_all

lemma for_each_stmt_backward_leaves:
  "for_each_stmt_backward s fn acc = foldr fn (leaves s) acc"
  by (induction s fn acc rule: for_each_stmt_backward.induct) simp_all

lemma statements_simps [simp]:
  "statements stmt_undefined = []"
  "statements (block a b) = statements a @ statements b"
  by (simp_all add: statements_def)

lemma leaves_not_block: "x \<in> set (leaves s) \<Longrightarrow> leaves x = [x]"
  by (induction s) auto

lemma statements_block_make_from:
  "statements (block_make_from r xs) = statements r @ concat (map statements xs)"
  by (induction r xs rule: block_make_from.induct) auto

lemma statements_block_make: "statements (block_make xs) = concat (map statements xs)"
  by (simp add: block_make_def statements_block_make_from)

lemma block_make_two: "block_make [x, y] = (if x \<noteq> stmt_undefined then block x y else y)"
  by (simp add: block_make_def)

lemma statements_leaf_self: "leaves x = [x] \<Longrightarrow> statements x = (if x = stmt_undefined then [] else [x])"
  by (simp add: statements_def)


lemma split_backward_step:
  assumes x: "leaves x = [x]"
    and ih: "statements nb @ statements a = ys"
      "\<forall>s\<in>set (statements a). \<not> dep s vars"
      "\<not> d \<longrightarrow> nb = stmt_undefined"
      "nb = stmt_undefined \<longleftrightarrow> statements nb = []"
      "a = stmt_undefined \<longleftrightarrow> statements a = []"
    and r: "split_backward dep vars x (nb, a, d) = (nb', a', d')"
  shows "statements nb' @ statements a' = filter (\<lambda>x. x \<noteq> stmt_undefined) [x] @ ys"
    and "\<forall>s\<in>set (statements a'). \<not> dep s vars"
    and "\<not> d' \<longrightarrow> nb' = stmt_undefined"
    and "d' \<longleftrightarrow> d \<or> dep x vars"
    and "nb' = stmt_undefined \<longleftrightarrow> statements nb' = []"
    and "a' = stmt_undefined \<longleftrightarrow> statements a' = []"
proof -
  show "statements nb' @ statements a' = filter (\<lambda>x. x \<noteq> stmt_undefined) [x] @ ys"
  proof (cases "\<not> d \<and> \<not> dep x vars")
    case True
    then have "nb' = nb" "a' = block_make [x, a]" "statements nb = []"
      using r ih(3,4) by (simp_all add: split_backward_def)
    then show ?thesis using x ih(1) by (simp add: block_make_two statements_leaf_self)
  next
    case False
    then have "nb' = block_make [x, nb]" "a' = a"
      using r by (auto simp add: split_backward_def)
    then show ?thesis using x ih(1) by (simp add: block_make_two statements_leaf_self)
  qed
  show "\<forall>s\<in>set (statements a'). \<not> dep s vars"
  proof (cases "\<not> d \<and> \<not> dep x vars")
    case True
    then have "a' = block_make [x, a]" using r by (simp add: split_backward_def)
    then show ?thesis using x ih(2) True by (simp add: block_make_two statements_leaf_self)
  next
    case False
    then have "a' = a" using r by (auto simp add: split_backward_def)
    then show ?thesis using ih(2) by simp
  qed
  show "\<not> d' \<longrightarrow> nb' = stmt_undefined"
    using r ih(3) by (auto simp add: split_backward_def split: if_splits)
  show "d' \<longleftrightarrow> d \<or> dep x vars"
    using r by (auto simp add: split_backward_def split: if_splits)
  show "nb' = stmt_undefined \<longleftrightarrow> statements nb' = []"
  proof (cases "\<not> d \<and> \<not> dep x vars")
    case True
    then have "nb' = nb" using r by (simp add: split_backward_def)
    then show ?thesis using ih(4) by simp
  next
    case False
    then have "nb' = block_make [x, nb]" using r by (auto simp add: split_backward_def)
    then show ?thesis using x ih(4) by (simp add: block_make_two statements_leaf_self)
  qed
  show "a' = stmt_undefined \<longleftrightarrow> statements a' = []"
  proof (cases "\<not> d \<and> \<not> dep x vars")
    case True
    then have "a' = block_make [x, a]" using r by (simp add: split_backward_def)
    then show ?thesis using x ih(5) by (simp add: block_make_two statements_leaf_self)
  next
    case False
    then have "a' = a" using r by (auto simp add: split_backward_def)
    then show ?thesis using ih(5) by simp
  qed
qed


lemma split_backward_fold:
  assumes "\<forall>x\<in>set ls. leaves x = [x]"
    and "foldr (split_backward dep vars) ls (stmt_undefined, stmt_undefined, False) = (nb, a, d)"
  shows "statements nb @ statements a = filter (\<lambda>x. x \<noteq> stmt_undefined) ls
       \<and> (\<forall>s\<in>set (statements a). \<not> dep s vars)
       \<and> (\<not> d \<longrightarrow> nb = stmt_undefined)
       \<and> (d \<longleftrightarrow> (\<exists>x\<in>set ls. dep x vars))
       \<and> (nb = stmt_undefined \<longleftrightarrow> statements nb = [])
       \<and> (a = stmt_undefined \<longleftrightarrow> statements a = [])"
  using assms
proof (induction ls arbitrary: nb a d)
  case Nil
  then show ?case by simp
next
  case (Cons x xs)
  obtain nb0 a0 d0 where
    r: "foldr (split_backward dep vars) xs (stmt_undefined, stmt_undefined, False) = (nb0, a0, d0)"
    by (cases "foldr (split_backward dep vars) xs (stmt_undefined, stmt_undefined, False)") auto
  have x: "leaves x = [x]" and xs: "\<forall>x\<in>set xs. leaves x = [x]" using Cons.prems(1) by simp_all
  note ih = Cons.IH[OF xs r]
  have step: "split_backward dep vars x (nb0, a0, d0) = (nb, a, d)"
    using Cons.prems(2) r by simp
  have ih1: "statements nb0 @ statements a0 = filter (\<lambda>x. x \<noteq> stmt_undefined) xs"
    and ih2: "\<forall>s\<in>set (statements a0). \<not> dep s vars"
    and ih3: "\<not> d0 \<longrightarrow> nb0 = stmt_undefined"
    and ih4: "d0 \<longleftrightarrow> (\<exists>x\<in>set xs. dep x vars)"
    and ih5: "nb0 = stmt_undefined \<longleftrightarrow> statements nb0 = []"
    and ih6: "a0 = stmt_undefined \<longleftrightarrow> statements a0 = []"
    using ih by blast+
  note s = split_backward_step[OF x ih1 ih2 ih3 ih5 ih6 step]
  have "statements nb @ statements a = filter (\<lambda>x. x \<noteq> stmt_undefined) (x # xs)"
    using s(1) by simp
  moreover have "d \<longleftrightarrow> (\<exists>y\<in>set (x # xs). dep y vars)"
    using s(4) ih4 by auto
  ultimately show ?case using s(2,3,5,6) by blast
qed

lemma split_forward_step:
  assumes x: "leaves x = [x]"
    and inv: "\<not> d \<longrightarrow> n = stmt_undefined"
      "b = stmt_undefined \<longleftrightarrow> statements b = []"
      "n = stmt_undefined \<longleftrightarrow> statements n = []"
    and r: "split_forward dep vars x (b, n, d) = (b', n', d')"
  shows "statements b' @ statements n' = statements b @ statements n @ filter (\<lambda>x. x \<noteq> stmt_undefined) [x]"
    and "set (statements b') \<subseteq> set (statements b) \<union> {y. y = x \<and> \<not> dep x vars}"
    and "\<not> d' \<longrightarrow> n' = stmt_undefined"
    and "d' \<longleftrightarrow> d \<or> dep x vars"
    and "b' = stmt_undefined \<longleftrightarrow> statements b' = []"
    and "n' = stmt_undefined \<longleftrightarrow> statements n' = []"
proof -
  consider (dep) "d \<or> dep x vars" | (nodep) "\<not> d" "\<not> dep x vars" by blast
  then have all: "(statements b' @ statements n' = statements b @ statements n @ filter (\<lambda>x. x \<noteq> stmt_undefined) [x])
     \<and> set (statements b') \<subseteq> set (statements b) \<union> {y. y = x \<and> \<not> dep x vars}
     \<and> (\<not> d' \<longrightarrow> n' = stmt_undefined)
     \<and> (d' \<longleftrightarrow> d \<or> dep x vars)
     \<and> (b' = stmt_undefined \<longleftrightarrow> statements b' = [])
     \<and> (n' = stmt_undefined \<longleftrightarrow> statements n' = [])"
  proof cases
    case dep
    then have e: "b' = b" "n' = block_make [n, x]" "d' = True"
      using r by (simp_all add: split_forward_def)
    show ?thesis
      unfolding e using x inv(2,3) dep by (simp add: block_make_two statements_leaf_self)
  next
    case nodep
    then have e: "b' = block_make [b, x]" "n' = n" "d' = d"
      using r by (simp_all add: split_forward_def)
    have n: "statements n = []" using nodep inv(1) by simp
    show ?thesis
      unfolding e using x inv n nodep by (auto simp add: block_make_two statements_leaf_self)
  qed
  show "statements b' @ statements n' = statements b @ statements n @ filter (\<lambda>x. x \<noteq> stmt_undefined) [x]"
    and "set (statements b') \<subseteq> set (statements b) \<union> {y. y = x \<and> \<not> dep x vars}"
    and "\<not> d' \<longrightarrow> n' = stmt_undefined"
    and "d' \<longleftrightarrow> d \<or> dep x vars"
    and "b' = stmt_undefined \<longleftrightarrow> statements b' = []"
    and "n' = stmt_undefined \<longleftrightarrow> statements n' = []"
    using all by blast+
qed

lemma split_forward_fold:
  assumes "\<forall>x\<in>set ls. leaves x = [x]"
    and "\<not> d \<longrightarrow> n = stmt_undefined"
    and "b = stmt_undefined \<longleftrightarrow> statements b = []"
    and "n = stmt_undefined \<longleftrightarrow> statements n = []"
    and "foldl (\<lambda>acc x. split_forward dep vars x acc) (b, n, d) ls = (b', n', d')"
  shows "statements b' @ statements n' = statements b @ statements n @ filter (\<lambda>x. x \<noteq> stmt_undefined) ls
       \<and> set (statements b') \<subseteq> set (statements b) \<union> {x \<in> set ls. \<not> dep x vars}
       \<and> (\<not> d' \<longrightarrow> n' = stmt_undefined)
       \<and> (d' \<longleftrightarrow> d \<or> (\<exists>x\<in>set ls. dep x vars))
       \<and> (b' = stmt_undefined \<longleftrightarrow> statements b' = [])
       \<and> (n' = stmt_undefined \<longleftrightarrow> statements n' = [])"
  using assms
proof (induction ls arbitrary: b n d)
  case Nil
  then show ?case by simp
next
  case (Cons x xs)
  have x: "leaves x = [x]" and xs: "\<forall>x\<in>set xs. leaves x = [x]" using Cons.prems(1) by simp_all
  obtain b1 n1 d1 where s: "split_forward dep vars x (b, n, d) = (b1, n1, d1)"
    by (cases "split_forward dep vars x (b, n, d)") auto
  note st = split_forward_step[OF x Cons.prems(2,3,4) s]
  have f: "foldl (\<lambda>acc x. split_forward dep vars x acc) (b1, n1, d1) xs = (b', n', d')"
    using Cons.prems(5) s by simp
  note ih = Cons.IH[OF xs st(3) st(5) st(6) f]
  have "statements b' @ statements n' = statements b @ statements n @ filter (\<lambda>x. x \<noteq> stmt_undefined) (x # xs)"
  proof -
    have "statements b' @ statements n' = (statements b1 @ statements n1) @ filter (\<lambda>x. x \<noteq> stmt_undefined) xs"
      using ih by simp
    also have "\<dots> = (statements b @ statements n @ filter (\<lambda>x. x \<noteq> stmt_undefined) [x]) @ filter (\<lambda>x. x \<noteq> stmt_undefined) xs"
      using st(1) by simp
    finally show ?thesis by simp
  qed
  moreover have "set (statements b') \<subseteq> set (statements b) \<union> {y \<in> set (x # xs). \<not> dep y vars}"
    using ih st(2) by auto
  moreover have "d' \<longleftrightarrow> d \<or> (\<exists>y\<in>set (x # xs). dep y vars)"
    using ih st(4) by auto
  ultimately show ?case using ih by blast
qed


lemma split_body_props:
  assumes sb: "split_body dep body vars = (before, new_body, after)"
  shows "statements before @ statements new_body @ statements after = statements body"
    and "\<forall>s\<in>set (statements before) \<union> set (statements after). \<not> dep s vars"
    and "(\<exists>s\<in>set (statements body). dep s vars) \<longrightarrow> new_body \<noteq> stmt_undefined"
    and "(\<forall>s\<in>set (leaves body). \<not> dep s vars) \<longrightarrow> new_body = stmt_undefined \<and> after = stmt_undefined"
    and "before = stmt_undefined \<longleftrightarrow> statements before = []"
    and "new_body = stmt_undefined \<longleftrightarrow> statements new_body = []"
    and "after = stmt_undefined \<longleftrightarrow> statements after = []"
proof -
  obtain b nba d1 where f: "foldl (\<lambda>acc x. split_forward dep vars x acc)
        (stmt_undefined, stmt_undefined, False) (leaves body) = (b, nba, d1)"
    by (cases "foldl (\<lambda>acc x. split_forward dep vars x acc)
        (stmt_undefined, stmt_undefined, False) (leaves body)") auto
  obtain nb a d2 where g: "foldr (split_backward dep vars) (leaves nba)
        (stmt_undefined, stmt_undefined, False) = (nb, a, d2)"
    by (cases "foldr (split_backward dep vars) (leaves nba)
        (stmt_undefined, stmt_undefined, False)") auto
  have eqs: "before = b" "new_body = nb" "after = a"
    using sb f g
    by (simp_all add: split_body_def for_each_stmt_forward_leaves for_each_stmt_backward_leaves)
  have l1: "\<forall>x\<in>set (leaves body). leaves x = [x]" by (simp add: leaves_not_block)
  have l2: "\<forall>x\<in>set (leaves nba). leaves x = [x]" by (simp add: leaves_not_block)
  have fw: "statements b @ statements nba = statements body"
    "set (statements b) \<subseteq> {x \<in> set (leaves body). \<not> dep x vars}"
    "\<not> d1 \<longrightarrow> nba = stmt_undefined"
    "d1 \<longleftrightarrow> (\<exists>x\<in>set (leaves body). dep x vars)"
    "b = stmt_undefined \<longleftrightarrow> statements b = []"
    using split_forward_fold[OF l1 _ _ _ f] by (simp_all add: statements_def)
  have bw: "statements nb @ statements a = statements nba"
    "\<forall>s\<in>set (statements a). \<not> dep s vars"
    "nb = stmt_undefined \<longleftrightarrow> statements nb = []"
    "a = stmt_undefined \<longleftrightarrow> statements a = []"
    using split_backward_fold[OF l2 g] by (simp_all add: statements_def)
  show c1: "statements before @ statements new_body @ statements after = statements body"
    using fw(1) bw(1) eqs by simp
  show c2: "\<forall>s\<in>set (statements before) \<union> set (statements after). \<not> dep s vars"
    using fw(2) bw(2) eqs by auto
  show "before = stmt_undefined \<longleftrightarrow> statements before = []"
    and c6: "new_body = stmt_undefined \<longleftrightarrow> statements new_body = []"
    and c7: "after = stmt_undefined \<longleftrightarrow> statements after = []"
    using fw(5) bw(3,4) eqs by simp_all
  show "(\<exists>s\<in>set (statements body). dep s vars) \<longrightarrow> new_body \<noteq> stmt_undefined"
  proof
    assume "\<exists>s\<in>set (statements body). dep s vars"
    then obtain s where s: "s \<in> set (statements body)" "dep s vars" by blast
    have "s \<in> set (statements before) \<union> set (statements new_body) \<union> set (statements after)"
      using s(1) c1[symmetric] by simp
    with c2 s(2) have "s \<in> set (statements new_body)" by blast
    then show "new_body \<noteq> stmt_undefined" using c6 by auto
  qed
  show "(\<forall>s\<in>set (leaves body). \<not> dep s vars) \<longrightarrow> new_body = stmt_undefined \<and> after = stmt_undefined"
  proof
    assume "\<forall>s\<in>set (leaves body). \<not> dep s vars"
    then have "nba = stmt_undefined" using fw(3,4) by blast
    then have "statements nb @ statements a = []" using bw(1) by simp
    then show "new_body = stmt_undefined \<and> after = stmt_undefined"
      using bw(3,4) eqs by simp
  qed
qed

lemma visit_stmt_same:
  "snd (visit_stmt dep op name m) \<Longrightarrow> fst (visit_stmt dep op name m) = op"
  by (auto simp: visit_stmt_def Let_def split: prod.splits if_splits)

lemma reduce_mutate_same: "snd (reduce_mutate dep s) \<Longrightarrow> fst (reduce_mutate dep s) = s"
  by (induction dep s rule: reduce_mutate.induct)
     (auto simp: visit_stmt_same split: prod.splits)

lemma reduce_mutate_scope:
  "scope_of op = Some (name, body) \<Longrightarrow>
   reduce_mutate dep op = visit_stmt dep op name (reduce_mutate dep body)"
  by (cases op) auto

lemma clone_statements:
  "scope_of op = Some (name, body) \<Longrightarrow>
   statements (clone_with_new_body op nb) = [clone_with_new_body op nb]"
  by (cases op) (auto simp: statements_def)

lemma clone_same: "scope_of op = Some (name, body) \<Longrightarrow> clone_with_new_body op body = op"
  by (cases op) auto


text \<open>
  C8, as the code has it. For a scoping node \<open>op\<close> with symbol \<open>name\<close>, the reduced body is
  split into \<open>before\<close>, \<open>new_body\<close> and \<open>after\<close>: the three hold the statements of the reduced
  body in their order, and no statement of \<open>before\<close> or \<open>after\<close> depends on \<open>name\<close>. When a
  statement of the body depends on \<open>name\<close>, the result holds the statements of \<open>before\<close>,
  then the node over the statements of \<open>new_body\<close>, then the statements of \<open>after\<close>. When no
  statement does, the node is dropped and the result holds the statements of the body
  alone.
\<close>

theorem reduce_scopes_splits_body:
  assumes op: "scope_of op = Some (name, body)"
    and sb: "split_body dep (fst (reduce_mutate dep body)) [name] = (before, new_body, after)"
  shows "statements before @ statements new_body @ statements after
           = statements (fst (reduce_mutate dep body))
       \<and> (\<forall>s\<in>set (statements before) \<union> set (statements after). \<not> dep s [name])
       \<and> ((\<exists>s\<in>set (statements (fst (reduce_mutate dep body))). dep s [name]) \<longrightarrow>
            (\<exists>nb. statements nb = statements new_body
                \<and> statements (reduce_scopes dep op)
                    = statements before @ [clone_with_new_body op nb] @ statements after))
       \<and> ((\<forall>s\<in>set (leaves (fst (reduce_mutate dep body))). \<not> dep s [name]) \<longrightarrow>
            statements (fst (reduce_mutate dep body)) \<noteq> [] \<longrightarrow>
            statements (reduce_scopes dep op) = statements (fst (reduce_mutate dep body)))"
proof -
  define body' where "body' = fst (reduce_mutate dep body)"
  define same where "same = snd (reduce_mutate dep body)"
  have m: "reduce_mutate dep body = (body', same)" by (simp add: body'_def same_def)
  note p = split_body_props[OF sb[folded body'_def]]
  have res: "reduce_mutate dep op = visit_stmt dep op name (body', same)"
    using reduce_mutate_scope[OF op] m by simp
  have live: "\<exists>nb. statements nb = statements new_body
                \<and> statements (reduce_scopes dep op)
                    = statements before @ [clone_with_new_body op nb] @ statements after"
    if d: "\<exists>s\<in>set (statements body'). dep s [name]"
  proof -
    have nb: "new_body \<noteq> stmt_undefined" using p(3) d by blast
    show ?thesis
    proof (cases "same \<and> before = stmt_undefined \<and> after = stmt_undefined")
      case True
      then have r: "reduce_scopes dep op = op"
        using res sb[folded body'_def] by (simp add: reduce_scopes_def visit_stmt_def)
      have b: "body' = body" using True reduce_mutate_same[of dep body] m by simp
      have "statements body = statements new_body" using p(1) True b by simp
      moreover have "statements (reduce_scopes dep op) = [clone_with_new_body op body]"
        using r clone_same[OF op] clone_statements[OF op, of body] by simp
      ultimately show ?thesis using True by auto
    next
      case False
      then have r: "reduce_scopes dep op = block_make [before, clone_with_new_body op new_body, after]"
        using res sb[folded body'_def] nb by (auto simp: reduce_scopes_def visit_stmt_def)
      show ?thesis
        using r clone_statements[OF op, of new_body]
        by (auto simp: statements_block_make)
    qed
  qed
  have dead: "statements (reduce_scopes dep op) = statements body'"
    if nd: "\<forall>s\<in>set (leaves body'). \<not> dep s [name]" and ne: "statements body' \<noteq> []"
  proof -
    have u: "new_body = stmt_undefined" "after = stmt_undefined" using p(4) nd by blast+
    then have "statements before = statements body'" using p(1) by simp
    then have "before \<noteq> stmt_undefined" using ne p(5) by simp
    then have r: "reduce_scopes dep op = block_make [before, after]"
      using res sb[folded body'_def] u by (auto simp: reduce_scopes_def visit_stmt_def)
    show ?thesis using r u \<open>statements before = statements body'\<close>
      by (simp add: statements_block_make)
  qed
  show ?thesis
    using p(1,2) live dead unfolding body'_def by blast
qed


theorem reduce_scopes_splits_body_witness:
  "scope_of (allocate heap 2 4 []
       (block (call_stmt 0 [0] [1]) (block (call_stmt 1 [1] [2])
          (block (call_stmt 2 [2] [3]) (call_stmt 3 [3] [4])))))
     = Some (2, block (call_stmt 0 [0] [1]) (block (call_stmt 1 [1] [2])
          (block (call_stmt 2 [2] [3]) (call_stmt 3 [3] [4]))))
   \<and> split_body depends_on
        (fst (reduce_mutate depends_on (block (call_stmt 0 [0] [1]) (block (call_stmt 1 [1] [2])
          (block (call_stmt 2 [2] [3]) (call_stmt 3 [3] [4])))))) [2]
     = (call_stmt 0 [0] [1],
        block (call_stmt 1 [1] [2]) (block (call_stmt 2 [2] [3]) stmt_undefined),
        block (call_stmt 3 [3] [4]) stmt_undefined)
   \<and> (\<exists>nb. statements nb = [call_stmt 1 [1] [2], call_stmt 2 [2] [3]]
          \<and> statements (reduce_scopes depends_on (allocate heap 2 4 []
                (block (call_stmt 0 [0] [1]) (block (call_stmt 1 [1] [2])
                   (block (call_stmt 2 [2] [3]) (call_stmt 3 [3] [4]))))))
              = [call_stmt 0 [0] [1], allocate heap 2 4 [] nb, call_stmt 3 [3] [4]])"
proof -
  define body where "body = block (call_stmt 0 [0] [1]) (block (call_stmt 1 [1] [2])
          (block (call_stmt 2 [2] [3]) (call_stmt 3 [3] [4])))"
  have op: "scope_of (allocate heap 2 4 [] body) = Some (2, body)" by simp
  have m: "fst (reduce_mutate depends_on body) = body" by (simp add: body_def)
  have sb: "split_body depends_on (fst (reduce_mutate depends_on body)) [2]
     = (call_stmt 0 [0] [1],
        block (call_stmt 1 [1] [2]) (block (call_stmt 2 [2] [3]) stmt_undefined),
        block (call_stmt 3 [3] [4]) stmt_undefined)"
    unfolding m
    by (simp add: body_def split_body_def split_forward_def split_backward_def depends_on_def
                  block_make_def)
  have d: "\<exists>s\<in>set (statements (fst (reduce_mutate depends_on body))). depends_on s [2]"
    unfolding m by (simp add: body_def statements_def depends_on_def)
  from reduce_scopes_splits_body[OF op sb] d
  have "\<exists>nb. statements nb = statements (block (call_stmt 1 [1] [2]) (block (call_stmt 2 [2] [3]) stmt_undefined))
          \<and> statements (reduce_scopes depends_on (allocate heap 2 4 [] body))
              = statements (call_stmt 0 [0] [1]) @ [clone_with_new_body (allocate heap 2 4 [] body) nb]
                @ statements (block (call_stmt 3 [3] [4]) stmt_undefined)"
    by blast
  then have "\<exists>nb. statements nb = [call_stmt 1 [1] [2], call_stmt 2 [2] [3]]
          \<and> statements (reduce_scopes depends_on (allocate heap 2 4 [] body))
              = [call_stmt 0 [0] [1], allocate heap 2 4 [] nb, call_stmt 3 [3] [4]]"
    by (simp add: statements_def)
  with op sb show ?thesis unfolding body_def by blast
qed

text \<open>
  C8 as stated has every scoping node rewritten to a block around the node. A node whose
  body never mentions its symbol is not kept (the last branch of \<^verbatim>\<open>visit_stmt\<close>, "the op was
  dead"): the \<^verbatim>\<open>let_stmt\<close> below is reduced to its body.
\<close>

theorem reduce_scopes_drops_dead_node:
  "reduce_scopes depends_on (let_stmt 0 (constant_expr 1) (check (variable 1)))
     = block (check (variable 1)) stmt_undefined"
  by (simp add: reduce_scopes_def visit_stmt_def split_body_def split_forward_def
                split_backward_def depends_on_def block_make_def)

text \<open>
  A scoping node whose body is the null statement, the null statement depending on
  nothing, is returned as it is.
\<close>

lemma reduce_scopes_null_body:
  "scope_of op = Some (name, stmt_undefined) \<Longrightarrow> \<not> dep stmt_undefined [name] \<Longrightarrow>
   reduce_scopes dep op = op"
  by (cases op)
     (simp_all add: reduce_scopes_def visit_stmt_def split_body_def split_forward_def
                    split_backward_def block_make_def)

section \<open>Claims C4 and C6: bounds inference\<close>

lemma input_checks_from_eq:
  "input_checks_from buf_var k bnds =
     concat (map (\<lambda>d. [check (less_equal (buffer_min buf_var (k + d)) (imin (bnds ! d))),
                         check (greater_equal (buffer_max buf_var (k + d)) (imax (bnds ! d))),
                         check (less_equal (extent (bnds ! d)) (buffer_fold_factor buf_var (k + d)))])
                 [0..<length bnds])"
proof (induction bnds arbitrary: k)
  case Nil
  then show ?case by simp
next
  case (Cons b bs)
  have "[0..<length (b # bs)] = 0 # map Suc [0..<length bs]"
    by (metis length_Cons map_Suc_upt upt_conv_Cons zero_less_Suc)
  then show ?case by (simp add: Cons.IH[of "Suc k"] comp_def del: upt.simps)
qed

lemma input_checks_eq:
  "\<forall>i\<in>set inputs. lookup m i \<noteq> None \<Longrightarrow>
   input_checks m inputs =
     Inr (concat (map (\<lambda>i. input_checks_from (variable i) 0 (the (lookup m i))) inputs))"
  by (induction inputs) auto

text \<open>
  C4: when the mutation of the statement returns and every formal input still has its
  entry in \<^verbatim>\<open>infer\<close>, the result of \<^verbatim>\<open>infer_bounds\<close> is the block of the checks followed by
  the mutated statement; the checks are, input by input and dimension by dimension of the
  inferred box, \<open>buffer_min(in, d) \<le> min\<close>, \<open>buffer_max(in, d) \<ge> max\<close> and
  \<open>extent \<le> buffer_fold_factor(in, d)\<close>.
\<close>

theorem infer_bounds_emits_checks:
  assumes run: "infer_mutate smin smax \<lparr>infer = set_inputs [] inputs, crops = []\<rparr> s = Inr (result, st)"
    and present: "\<forall>i\<in>set inputs. lookup (infer st) i \<noteq> None"
  shows "infer_bounds smin smax s inputs =
     Inr (block
            (block_make
               (concat (map (\<lambda>i.
                  concat (map (\<lambda>d.
                    [check (less_equal (buffer_min (variable i) d) (imin (the (lookup (infer st) i) ! d))),
                     check (greater_equal (buffer_max (variable i) d) (imax (the (lookup (infer st) i) ! d))),
                     check (less_equal (extent (the (lookup (infer st) i) ! d))
                                       (buffer_fold_factor (variable i) d))])
                    [0..<length (the (lookup (infer st) i))])) inputs)))
            result)"
  using run input_checks_eq[OF present]
  by (simp add: infer_bounds_def input_checks_from_eq)

lemma recursive_substitute_nil: "recursive_substitute dims [] = Some dims"
  by (subst recursive_substitute.simps) (simp add: substitute_dim_def map_idI)

text \<open>
  C6, as the code has it: when the visit of the body leaves the box of the allocation
  empty (no consumer recorded a region), the visit of the \<^verbatim>\<open>allocate\<close> builds no
  substitution and returns the allocation with the dimensions it had, with no error.
\<close>

theorem allocate_without_consumer:
  assumes body: "infer_mutate smin smax (st\<lparr>infer := assign (infer st) name (Some [])\<rparr>) body = Inr (body', st1)"
    and none: "lookup (infer st1) name = Some []"
  shows "\<exists>st'. infer_mutate smin smax st (allocate storage name elem_size dims body)
            = Inr (block stmt_undefined (allocate storage name elem_size dims body'), st')"
  using assms by (simp add: Let_def recursive_substitute_nil block_make_def)


theorem infer_bounds_emits_checks_witness:
  "infer_bounds min_expr max_expr
     (crop_dim 0 0 \<lparr>imin = variable 5, imax = variable 5\<rparr> (call_stmt 0 [0] [1])) [0]
   = Inr (block
            (block (block (check (less_equal (buffer_min (variable 0) 0) (variable 5)))
                          (check (greater_equal (buffer_max (variable 0) 0) (variable 5))))
                   (check (less_equal (extent \<lparr>imin = variable 5, imax = variable 5\<rparr>)
                                      (buffer_fold_factor (variable 0) 0))))
            (crop_dim 0 0 \<lparr>imin = variable 5, imax = variable 5\<rparr> (call_stmt 0 [0] [1])))"
proof -
  define st where "st = \<lparr>infer = [Some [\<lparr>imin = variable 5, imax = variable 5\<rparr>]], crops = [None]\<rparr>"
  have run: "infer_mutate min_expr max_expr \<lparr>infer = set_inputs [] [0], crops = []\<rparr>
        (crop_dim 0 0 \<lparr>imin = variable 5, imax = variable 5\<rparr> (call_stmt 0 [0] [1]))
      = Inr (crop_dim 0 0 \<lparr>imin = variable 5, imax = variable 5\<rparr> (call_stmt 0 [0] [1]), st)"
    by (simp add: st_def lookup_def assign_def merge_crop_dim_def vector_at_def defined_def Let_def)
  have present: "\<forall>i\<in>set [0]. lookup (infer st) i \<noteq> None"
    by (simp add: st_def lookup_def)
  show ?thesis
    using infer_bounds_emits_checks[OF run present]
    by (simp add: st_def lookup_def block_make_def)
qed

theorem allocate_without_consumer_witness:
  "\<exists>st'. infer_mutate min_expr max_expr \<lparr>infer = [], crops = []\<rparr>
      (allocate heap 2 4
         [\<lparr>bounds = \<lparr>imin = buffer_min (variable 2) 0, imax = buffer_max (variable 2) 0\<rparr>,
           stride = buffer_stride (variable 2) 0, fold_factor = buffer_fold_factor (variable 2) 0\<rparr>]
         (call_stmt 0 [] [2]))
    = Inr (block stmt_undefined
             (allocate heap 2 4
                [\<lparr>bounds = \<lparr>imin = buffer_min (variable 2) 0, imax = buffer_max (variable 2) 0\<rparr>,
                  stride = buffer_stride (variable 2) 0, fold_factor = buffer_fold_factor (variable 2) 0\<rparr>]
                (call_stmt 0 [] [2])), st')"
proof -
  have run: "infer_mutate min_expr max_expr
        (\<lparr>infer = [], crops = []\<rparr>\<lparr>infer := assign (infer \<lparr>infer = [], crops = []\<rparr>) 2 (Some [])\<rparr>)
        (call_stmt 0 [] [2])
      = Inr (call_stmt 0 [] [2], \<lparr>infer = [None, None, Some []], crops = []\<rparr>)"
    by (simp add: assign_def eval_nat_numeral)
  have none: "lookup (infer \<lparr>infer = [None, None, Some []], crops = ([] :: box_expr symbol_map)\<rparr>) 2 = Some []"
    by (simp add: lookup_def)
  show ?thesis
    using allocate_without_consumer[OF run none] by blast
qed

text \<open>
  C6 as stated has bounds inference fail with \<^verbatim>\<open>UnboundedAllocation\<close> when no consumer
  demanded a region of an allocated buffer. The pass has no such error: a buffer that is
  produced and never consumed goes through, its dimensions still the \<^verbatim>\<open>buffer_min\<close> and
  \<^verbatim>\<open>buffer_max\<close> calls on itself.
\<close>

theorem unbounded_allocation_is_no_error:
  "infer_bounds min_expr max_expr
      (allocate heap 2 4
         [\<lparr>bounds = \<lparr>imin = buffer_min (variable 2) 0, imax = buffer_max (variable 2) 0\<rparr>,
           stride = buffer_stride (variable 2) 0, fold_factor = buffer_fold_factor (variable 2) 0\<rparr>]
         (call_stmt 0 [] [2])) []
    = Inr (block stmt_undefined
            (block stmt_undefined
              (allocate heap 2 4
                [\<lparr>bounds = \<lparr>imin = buffer_min (variable 2) 0, imax = buffer_max (variable 2) 0\<rparr>,
                  stride = buffer_stride (variable 2) 0, fold_factor = buffer_fold_factor (variable 2) 0\<rparr>]
                (call_stmt 0 [] [2]))))"
  by (simp add: infer_bounds_def Let_def lookup_def assign_def eval_nat_numeral
                recursive_substitute_nil block_make_def)

section \<open>Claim C2: leaving a loop\<close>

lemma loop_crops_fst: "fst (loop_crops f k m r) = map (map_option (map f)) m"
  by (induction f k m r rule: loop_crops.induct) (auto split: prod.splits)

lemma upt_add_Suc: "[k..<Suc (k + n)] = k # [Suc k..<Suc (k + n)]"
  by (simp add: upt_conv_Cons)

lemma loop_crops_snd:
  "snd (loop_crops f k m r) =
     foldl (\<lambda>r (buf, e). case e of None \<Rightarrow> r | Some b \<Rightarrow> crop_buffer buf (map f b) r) r
       (zip [k..<k + length m] m)"
proof (induction f k m r rule: loop_crops.induct)
  case (1 f buf result)
  then show ?case by simp
next
  case (2 f buf m result)
  then show ?case
    by (auto simp add: upt_add_Suc simp del: upt.simps split: prod.splits)
next
  case (3 f buf inferring m result)
  then show ?case
    by (auto simp add: upt_add_Suc simp del: upt.simps split: prod.splits)
qed

lemma zip_upt_nth: "zip [0..<length m] m = map (\<lambda>i. (i, m ! i)) [0..<length m]"
  by (rule nth_equalityI) auto

lemma loop_crops_result:
  "snd (loop_crops f 0 m r) =
     foldl (\<lambda>r buf. case lookup (map (map_option (map f)) m) buf of
                       None \<Rightarrow> r | Some b \<Rightarrow> crop_buffer buf b r) r [0..<length m]"
proof -
  have "foldl (\<lambda>r (buf, e). case e of None \<Rightarrow> r | Some b \<Rightarrow> crop_buffer buf (map f b) r) r
          (map (\<lambda>i. (i, m ! i)) [0..<length m])
      = foldl (\<lambda>r buf. case lookup (map (map_option (map f)) m) buf of
                       None \<Rightarrow> r | Some b \<Rightarrow> crop_buffer buf b r) r [0..<length m]"
    unfolding foldl_map
    by (rule foldl_cong) (auto simp: lookup_def split: option.splits)
  then show ?thesis
    using loop_crops_snd[of f 0 m r] by (simp add: zip_upt_nth del: upt.simps)
qed


lemma substitute_variable_eval:
  "let_free e \<Longrightarrow> eval env r = Some v \<Longrightarrow>
   eval env (substitute e (variable n) r) = eval (env(n \<mapsto> v)) e"
proof (induction e)
  case (call f args)
  show ?case
  proof (cases "f = abs_fn \<and> (\<exists>a. args = [a])")
    case True
    then obtain a where a: "args = [a]" and f: "f = abs_fn" by blast
    have "a \<in> set args" "let_free a" using call.prems a by simp_all
    then have "eval env (substitute a (variable n) r) = eval (env(n \<mapsto> v)) a"
      using call.IH call.prems(2) by blast
    then show ?thesis using a f by (simp add: fun_upd_def)
  next
    case False
    then have "eval env' (call f as) = None" if "length as = length args" for env' as
      using that by (cases f; cases as; cases "tl as"; cases args; cases "tl args") auto
    then show ?thesis by simp
  qed
qed (auto split: option.splits)

lemma hull_Min:
  fixes f :: "int \<Rightarrow> int"
  assumes "l \<le> h" "0 < s" "(h - l) mod s = 0"
    and "(\<forall>i j. l \<le> i \<and> i \<le> j \<and> j \<le> h \<longrightarrow> f i \<le> f j)
       \<or> (\<forall>i j. l \<le> i \<and> i \<le> j \<and> j \<le> h \<longrightarrow> f j \<le> f i)"
  shows "Min (f ` {i. l \<le> i \<and> i \<le> h \<and> (i - l) mod s = 0}) = min (f l) (f h)"
proof (rule Min_eqI)
  have "{i. l \<le> i \<and> i \<le> h \<and> (i - l) mod s = 0} \<subseteq> {l..h}" by auto
  then show "finite (f ` {i. l \<le> i \<and> i \<le> h \<and> (i - l) mod s = 0})"
    using finite_subset by blast
  show "min (f l) (f h) \<le> y" if "y \<in> f ` {i. l \<le> i \<and> i \<le> h \<and> (i - l) mod s = 0}" for y
  proof -
    from that obtain i where i: "y = f i" "l \<le> i" "i \<le> h" by blast
    from assms(4) show ?thesis
    proof
      assume "\<forall>i j. l \<le> i \<and> i \<le> j \<and> j \<le> h \<longrightarrow> f i \<le> f j"
      then have "f l \<le> f i" using i by simp
      then show ?thesis using i by simp
    next
      assume "\<forall>i j. l \<le> i \<and> i \<le> j \<and> j \<le> h \<longrightarrow> f j \<le> f i"
      then have "f h \<le> f i" using i by simp
      then show ?thesis using i by simp
    qed
  qed
  show "min (f l) (f h) \<in> f ` {i. l \<le> i \<and> i \<le> h \<and> (i - l) mod s = 0}"
  proof (cases "f l \<le> f h")
    case True
    then show ?thesis using assms(1) by (simp add: min_def image_iff) (rule exI[of _ l], simp)
  next
    case False
    then show ?thesis using assms(1,3) by (simp add: min_def image_iff) (rule exI[of _ h], simp)
  qed
qed

lemma hull_Max:
  fixes g :: "int \<Rightarrow> int"
  assumes "l \<le> h" "0 < s" "(h - l) mod s = 0"
    and "(\<forall>i j. l \<le> i \<and> i \<le> j \<and> j \<le> h \<longrightarrow> g i \<le> g j)
       \<or> (\<forall>i j. l \<le> i \<and> i \<le> j \<and> j \<le> h \<longrightarrow> g j \<le> g i)"
  shows "Max (g ` {i. l \<le> i \<and> i \<le> h \<and> (i - l) mod s = 0}) = max (g l) (g h)"
proof (rule Max_eqI)
  have "{i. l \<le> i \<and> i \<le> h \<and> (i - l) mod s = 0} \<subseteq> {l..h}" by auto
  then show "finite (g ` {i. l \<le> i \<and> i \<le> h \<and> (i - l) mod s = 0})"
    using finite_subset by blast
  show "y \<le> max (g l) (g h)" if "y \<in> g ` {i. l \<le> i \<and> i \<le> h \<and> (i - l) mod s = 0}" for y
  proof -
    from that obtain i where i: "y = g i" "l \<le> i" "i \<le> h" by blast
    from assms(4) show ?thesis
    proof
      assume "\<forall>i j. l \<le> i \<and> i \<le> j \<and> j \<le> h \<longrightarrow> g i \<le> g j"
      then have "g i \<le> g h" using i by simp
      then show ?thesis using i by simp
    next
      assume "\<forall>i j. l \<le> i \<and> i \<le> j \<and> j \<le> h \<longrightarrow> g j \<le> g i"
      then have "g i \<le> g l" using i by simp
      then show ?thesis using i by simp
    qed
  qed
  show "max (g l) (g h) \<in> g ` {i. l \<le> i \<and> i \<le> h \<and> (i - l) mod s = 0}"
  proof (cases "g l \<le> g h")
    case True
    then show ?thesis using assms(1,3) by (simp add: max_def image_iff) (rule exI[of _ h], simp)
  next
    case False
    then show ?thesis using assms(1) by (simp add: max_def image_iff) (rule exI[of _ l], simp)
  qed
qed


text \<open>
  C2, as the code has it. On leaving \<^verbatim>\<open>loop(name, bnds, step, body)\<close>, for every loop, every
  box recorded in \<^verbatim>\<open>infer\<close> has each bound that mentions \<open>name\<close> replaced by the simplified
  \<open>min\<close> (for a minimum) or \<open>max\<close> (for a maximum) of the bound at \<open>name = bnds.min\<close> and at
  \<open>name = bnds.max\<close>, and the loop is wrapped in a \<^verbatim>\<open>crop_buffer\<close> of the new box for every
  buffer of \<^verbatim>\<open>infer\<close>, the lowest symbol innermost. The new bounds are those of the union over
  the iterations when the bound is monotone in \<open>name\<close> between the ends of the loop: in any
  environment where the loop bounds have the values \<open>l \<le> h\<close>, \<open>h\<close> is an iteration of the loop
  of step \<open>s\<close>, \<open>f i\<close> and \<open>g i\<close> are the values of the bounds at \<open>name = i\<close>, both monotone on
  \<open>[l, h]\<close>, and the simplifier preserves values, the new minimum has the value of the least
  \<open>f i\<close> and the new maximum that of the greatest \<open>g i\<close> over the iterations.
\<close>

theorem loop_infers_bounds:
  assumes run: "infer_mutate smin smax st body = Inr (body', st1)"
    and rec: "lookup (infer st1) buf = Some b"
    and d: "d < length b"
  shows "\<exists>st' b'.
      infer_mutate smin smax st (loop name mode bnds step body)
        = Inr (foldl (\<lambda>r k. case lookup (infer st') k of None \<Rightarrow> r | Some c \<Rightarrow> crop_buffer k c r)
                 (loop name mode bnds step body') [0..<length (infer st1)], st')
    \<and> lookup (infer st') buf = Some b' \<and> length b' = length b
    \<and> imin (b' ! d) = (if depends_on_expr (imin (b ! d)) name
                        then smin (substitute (imin (b ! d)) (variable name) (imin bnds))
                                  (substitute (imin (b ! d)) (variable name) (imax bnds))
                        else imin (b ! d))
    \<and> imax (b' ! d) = (if depends_on_expr (imax (b ! d)) name
                        then smax (substitute (imax (b ! d)) (variable name) (imin bnds))
                                  (substitute (imax (b ! d)) (variable name) (imax bnds))
                        else imax (b ! d))
    \<and> (\<forall>env l h s (f :: int \<Rightarrow> int) (g :: int \<Rightarrow> int).
          eval env (imin bnds) = Some l \<and> eval env (imax bnds) = Some h
          \<and> l \<le> h \<and> 0 < s \<and> (h - l) mod s = 0
          \<and> (\<forall>x y a c. eval env x = Some a \<and> eval env y = Some c
                 \<longrightarrow> eval env (smin x y) = Some (min a c) \<and> eval env (smax x y) = Some (max a c))
          \<and> let_free (imin (b ! d)) \<and> let_free (imax (b ! d))
          \<and> (\<forall>i. l \<le> i \<and> i \<le> h \<longrightarrow>
                 eval (env(name \<mapsto> i)) (imin (b ! d)) = Some (f i)
               \<and> eval (env(name \<mapsto> i)) (imax (b ! d)) = Some (g i))
          \<and> ((\<forall>i j. l \<le> i \<and> i \<le> j \<and> j \<le> h \<longrightarrow> f i \<le> f j)
              \<or> (\<forall>i j. l \<le> i \<and> i \<le> j \<and> j \<le> h \<longrightarrow> f j \<le> f i))
          \<and> ((\<forall>i j. l \<le> i \<and> i \<le> j \<and> j \<le> h \<longrightarrow> g i \<le> g j)
              \<or> (\<forall>i j. l \<le> i \<and> i \<le> j \<and> j \<le> h \<longrightarrow> g j \<le> g i))
          \<longrightarrow>
            (depends_on_expr (imin (b ! d)) name \<longrightarrow>
               eval env (imin (b' ! d)) = Some (Min (f ` {i. l \<le> i \<and> i \<le> h \<and> (i - l) mod s = 0})))
          \<and> (depends_on_expr (imax (b ! d)) name \<longrightarrow>
               eval env (imax (b' ! d)) = Some (Max (g ` {i. l \<le> i \<and> i \<le> h \<and> (i - l) mod s = 0}))))"
proof -
  define F where "F = loop_interval smin smax name bnds"
  define m where "m = map (map_option (map F)) (infer st1)"
  define st' where "st' = st1\<lparr>infer := m\<rparr>"
  define b' where "b' = map F b"
  have res: "infer_mutate smin smax st (loop name mode bnds step body)
        = Inr (foldl (\<lambda>r k. case lookup (infer st') k of None \<Rightarrow> r | Some c \<Rightarrow> crop_buffer k c r)
                 (loop name mode bnds step body') [0..<length (infer st1)], st')"
    using run loop_crops_fst[of F 0 "infer st1" "loop name mode bnds step body'"]
      loop_crops_result[of F "infer st1" "loop name mode bnds step body'"]
    by (auto simp add: F_def[symmetric] st'_def m_def simp del: upt.simps split: prod.splits)
  have lk: "lookup (infer st') buf = Some b'"
    using rec by (auto simp: st'_def m_def b'_def lookup_def split: if_splits)
  have len: "length b' = length b" by (simp add: b'_def)
  have bd: "b' ! d = F (b ! d)" using d by (simp add: b'_def)
  have mn: "imin (b' ! d) = (if depends_on_expr (imin (b ! d)) name
                        then smin (substitute (imin (b ! d)) (variable name) (imin bnds))
                                  (substitute (imin (b ! d)) (variable name) (imax bnds))
                        else imin (b ! d))"
    and mx: "imax (b' ! d) = (if depends_on_expr (imax (b ! d)) name
                        then smax (substitute (imax (b ! d)) (variable name) (imin bnds))
                                  (substitute (imax (b ! d)) (variable name) (imax bnds))
                        else imax (b ! d))"
    by (simp_all add: bd F_def loop_interval_def)
  have sem: "(depends_on_expr (imin (b ! d)) name \<longrightarrow>
               eval env (imin (b' ! d)) = Some (Min (f ` {i. l \<le> i \<and> i \<le> h \<and> (i - l) mod s = 0})))
          \<and> (depends_on_expr (imax (b ! d)) name \<longrightarrow>
               eval env (imax (b' ! d)) = Some (Max (g ` {i. l \<le> i \<and> i \<le> h \<and> (i - l) mod s = 0})))"
    if lo: "eval env (imin bnds) = Some l" and hi: "eval env (imax bnds) = Some h"
      and iter: "l \<le> h" "0 < s" "(h - l) mod s = 0"
      and sm: "\<forall>x y a c. eval env x = Some a \<and> eval env y = Some c
                 \<longrightarrow> eval env (smin x y) = Some (min a c) \<and> eval env (smax x y) = Some (max a c)"
      and lf: "let_free (imin (b ! d))" "let_free (imax (b ! d))"
      and vals: "\<forall>i. l \<le> i \<and> i \<le> h \<longrightarrow>
                 eval (env(name \<mapsto> i)) (imin (b ! d)) = Some (f i)
               \<and> eval (env(name \<mapsto> i)) (imax (b ! d)) = Some (g i)"
      and monof: "(\<forall>i j. l \<le> i \<and> i \<le> j \<and> j \<le> h \<longrightarrow> f i \<le> f j)
              \<or> (\<forall>i j. l \<le> i \<and> i \<le> j \<and> j \<le> h \<longrightarrow> f j \<le> f i)"
      and monog: "(\<forall>i j. l \<le> i \<and> i \<le> j \<and> j \<le> h \<longrightarrow> g i \<le> g j)
              \<or> (\<forall>i j. l \<le> i \<and> i \<le> j \<and> j \<le> h \<longrightarrow> g j \<le> g i)"
    for env l h s and f g :: "int \<Rightarrow> int"
  proof -
    have el: "eval env (substitute (imin (b ! d)) (variable name) (imin bnds)) = Some (f l)"
      "eval env (substitute (imin (b ! d)) (variable name) (imax bnds)) = Some (f h)"
      "eval env (substitute (imax (b ! d)) (variable name) (imin bnds)) = Some (g l)"
      "eval env (substitute (imax (b ! d)) (variable name) (imax bnds)) = Some (g h)"
      using substitute_variable_eval[OF lf(1) lo] substitute_variable_eval[OF lf(1) hi]
        substitute_variable_eval[OF lf(2) lo] substitute_variable_eval[OF lf(2) hi]
        vals iter(1) by simp_all
    have smin: "eval env (smin x y) = Some (min a c)"
      and smax: "eval env (smax x y) = Some (max a c)"
      if "eval env x = Some a" "eval env y = Some c" for x y a c
      using sm that by blast+
    have emin: "eval env (imin (b' ! d)) = Some (Min (f ` {i. l \<le> i \<and> i \<le> h \<and> (i - l) mod s = 0}))"
      if "depends_on_expr (imin (b ! d)) name"
      using that mn smin[OF el(1,2)] hull_Min[OF iter monof] by simp
    have emax: "eval env (imax (b' ! d)) = Some (Max (g ` {i. l \<le> i \<and> i \<le> h \<and> (i - l) mod s = 0}))"
      if "depends_on_expr (imax (b ! d)) name"
      using that mx smax[OF el(3,4)] hull_Max[OF iter monog] by simp
    show ?thesis using emin emax by blast
  qed
  show ?thesis
    apply (rule exI[of _ st'], rule exI[of _ b'])
    apply (intro conjI)
         apply (rule res)
        apply (rule lk)
       apply (rule len)
      apply (rule mn)
     apply (rule mx)
    apply (intro allI impI)
    apply (elim conjE)
    apply (rule sem; assumption)
    done
qed

theorem loop_infers_bounds_witness:
  "infer_mutate min_expr max_expr \<lparr>infer = [Some []], crops = []\<rparr>
     (loop 1 serial \<lparr>imin = constant_expr 0, imax = constant_expr 9\<rparr> (constant_expr 1)
        (crop_dim 0 0 \<lparr>imin = variable 1, imax = add (variable 1) (constant_expr 2)\<rparr>
           (call_stmt 0 [0] [2])))
   = Inr (crop_buffer 0
            [\<lparr>imin = min_expr (constant_expr 0) (constant_expr 9),
              imax = max_expr (add (constant_expr 0) (constant_expr 2))
                              (add (constant_expr 9) (constant_expr 2))\<rparr>]
            (loop 1 serial \<lparr>imin = constant_expr 0, imax = constant_expr 9\<rparr> (constant_expr 1)
               (crop_dim 0 0 \<lparr>imin = variable 1, imax = add (variable 1) (constant_expr 2)\<rparr>
                  (call_stmt 0 [0] [2]))),
          \<lparr>infer = [Some [\<lparr>imin = min_expr (constant_expr 0) (constant_expr 9),
                            imax = max_expr (add (constant_expr 0) (constant_expr 2))
                                            (add (constant_expr 9) (constant_expr 2))\<rparr>]],
           crops = [None]\<rparr>)
   \<and> Min ((\<lambda>i. i) ` {i::int. 0 \<le> i \<and> i \<le> 9 \<and> (i - 0) mod 1 = 0}) = 0
   \<and> Max ((\<lambda>i. i + 2) ` {i::int. 0 \<le> i \<and> i \<le> 9 \<and> (i - 0) mod 1 = 0}) = 11"
proof -
  define body where "body = crop_dim 0 0 \<lparr>imin = variable 1, imax = add (variable 1) (constant_expr 2)\<rparr>
           (call_stmt 0 [0] [2])"
  define b where "b = [\<lparr>imin = variable 1, imax = add (variable 1) (constant_expr 2)\<rparr>]"
  define st1 where "st1 = \<lparr>infer = [Some b], crops = [None]\<rparr>"
  define bnds where "bnds = \<lparr>imin = constant_expr 0, imax = constant_expr 9\<rparr>"
  have run: "infer_mutate min_expr max_expr \<lparr>infer = [Some []], crops = []\<rparr> body = Inr (body, st1)"
    by (simp add: body_def st1_def b_def lookup_def assign_def merge_crop_dim_def vector_at_def
                  defined_def Let_def add_def)
  have rec: "lookup (infer st1) 0 = Some b" by (simp add: st1_def lookup_def)
  have d: "0 < length b" by (simp add: b_def)
  have lo: "eval Map.empty (imin bnds) = Some 0" and hi: "eval Map.empty (imax bnds) = Some 9"
    by (simp_all add: bnds_def)
  have sm: "\<forall>x y a c. eval Map.empty x = Some a \<and> eval Map.empty y = Some c
                 \<longrightarrow> eval Map.empty (min_expr x y) = Some (min a c)
                   \<and> eval Map.empty (max_expr x y) = Some (max a c)"
    by (simp add: min_expr_def max_expr_def)
  have lf: "let_free (imin (b ! 0))" "let_free (imax (b ! 0))" by (simp_all add: b_def add_def)
  have vals: "\<forall>i. 0 \<le> i \<and> i \<le> 9 \<longrightarrow>
                 eval (Map.empty(1 \<mapsto> i)) (imin (b ! 0)) = Some (i)
               \<and> eval (Map.empty(1 \<mapsto> i)) (imax (b ! 0)) = Some (i + 2)"
    by (simp add: b_def add_def)
  have dep: "depends_on_expr (imin (b ! 0)) 1" "depends_on_expr (imax (b ! 0)) 1"
    by (simp_all add: b_def add_def)
  obtain st' b' where
    r: "infer_mutate min_expr max_expr \<lparr>infer = [Some []], crops = []\<rparr>
          (loop 1 serial bnds (constant_expr 1) body)
        = Inr (foldl (\<lambda>r k. case lookup (infer st') k of None \<Rightarrow> r | Some c \<Rightarrow> crop_buffer k c r)
                 (loop 1 serial bnds (constant_expr 1) body) [0..<length (infer st1)], st')"
    and lk: "lookup (infer st') 0 = Some b'"
    and sem: "\<forall>env l h s (f :: int \<Rightarrow> int) (g :: int \<Rightarrow> int).
          eval env (imin bnds) = Some l \<and> eval env (imax bnds) = Some h
          \<and> l \<le> h \<and> 0 < s \<and> (h - l) mod s = 0
          \<and> (\<forall>x y a c. eval env x = Some a \<and> eval env y = Some c
                 \<longrightarrow> eval env (min_expr x y) = Some (min a c) \<and> eval env (max_expr x y) = Some (max a c))
          \<and> let_free (imin (b ! 0)) \<and> let_free (imax (b ! 0))
          \<and> (\<forall>i. l \<le> i \<and> i \<le> h \<longrightarrow>
                 eval (env(1 \<mapsto> i)) (imin (b ! 0)) = Some (f i)
               \<and> eval (env(1 \<mapsto> i)) (imax (b ! 0)) = Some (g i))
          \<and> ((\<forall>i j. l \<le> i \<and> i \<le> j \<and> j \<le> h \<longrightarrow> f i \<le> f j)
              \<or> (\<forall>i j. l \<le> i \<and> i \<le> j \<and> j \<le> h \<longrightarrow> f j \<le> f i))
          \<and> ((\<forall>i j. l \<le> i \<and> i \<le> j \<and> j \<le> h \<longrightarrow> g i \<le> g j)
              \<or> (\<forall>i j. l \<le> i \<and> i \<le> j \<and> j \<le> h \<longrightarrow> g j \<le> g i))
          \<longrightarrow>
            (depends_on_expr (imin (b ! 0)) 1 \<longrightarrow>
               eval env (imin (b' ! 0)) = Some (Min (f ` {i. l \<le> i \<and> i \<le> h \<and> (i - l) mod s = 0})))
          \<and> (depends_on_expr (imax (b ! 0)) 1 \<longrightarrow>
               eval env (imax (b' ! 0)) = Some (Max (g ` {i. l \<le> i \<and> i \<le> h \<and> (i - l) mod s = 0})))"
    using loop_infers_bounds[where mode = serial and step = "constant_expr 1" and name = 1
            and bnds = bnds, OF run rec d]
    by blast
  have e: "eval Map.empty (imin (b' ! 0)) = Some (Min ((\<lambda>i. i) ` {i. 0 \<le> i \<and> i \<le> 9 \<and> (i - 0) mod 1 = 0}))
         \<and> eval Map.empty (imax (b' ! 0)) = Some (Max ((\<lambda>i. i + 2) ` {i. 0 \<le> i \<and> i \<le> 9 \<and> (i - 0) mod 1 = 0}))"
    using sem[rule_format, of Map.empty 0 9 1 "\<lambda>i. i" "\<lambda>i. i + 2"] lo hi sm lf vals dep
    by simp
  have direct: "infer_mutate min_expr max_expr \<lparr>infer = [Some []], crops = []\<rparr>
          (loop 1 serial bnds (constant_expr 1) body)
     = Inr (crop_buffer 0
            [\<lparr>imin = min_expr (constant_expr 0) (constant_expr 9),
              imax = max_expr (add (constant_expr 0) (constant_expr 2))
                              (add (constant_expr 9) (constant_expr 2))\<rparr>]
            (loop 1 serial bnds (constant_expr 1) body),
          \<lparr>infer = [Some [\<lparr>imin = min_expr (constant_expr 0) (constant_expr 9),
                            imax = max_expr (add (constant_expr 0) (constant_expr 2))
                                            (add (constant_expr 9) (constant_expr 2))\<rparr>]],
           crops = [None]\<rparr>)"
    by (simp add: body_def bnds_def lookup_def assign_def merge_crop_dim_def vector_at_def
                  defined_def Let_def add_def loop_interval_def)
  from r direct have st': "st' = \<lparr>infer = [Some [\<lparr>imin = min_expr (constant_expr 0) (constant_expr 9),
                            imax = max_expr (add (constant_expr 0) (constant_expr 2))
                                            (add (constant_expr 9) (constant_expr 2))\<rparr>]],
           crops = [None]\<rparr>" by simp
  from lk have b': "b' = [\<lparr>imin = min_expr (constant_expr 0) (constant_expr 9),
                            imax = max_expr (add (constant_expr 0) (constant_expr 2))
                                            (add (constant_expr 9) (constant_expr 2))\<rparr>]"
    by (simp add: st' lookup_def)
  from e have "Min ((\<lambda>i. i) ` {i::int. 0 \<le> i \<and> i \<le> 9 \<and> (i - 0) mod 1 = 0}) = 0"
    by (simp add: b' min_expr_def)
  moreover from e have "Max ((\<lambda>i. i + 2) ` {i::int. 0 \<le> i \<and> i \<le> 9 \<and> (i - 0) mod 1 = 0}) = 11"
    by (simp add: b' max_expr_def add_def)
  ultimately show ?thesis using direct unfolding body_def bnds_def by simp
qed

text \<open>
  C2 as stated has the inferred region equal to the union over all iterations. The pass
  looks at the two ends of the loop only. For the region \<open>[x * x, x * x]\<close> in a loop of \<open>x\<close>
  over \<open>[-2, 2]\<close> it infers an interval of value \<open>[4, 4]\<close>, which misses the iteration
  \<open>x = 0\<close>, whose region is \<open>[0, 0]\<close>. (\<open>min_expr\<close> and \<open>max_expr\<close> stand for the simplifier: they
  build the node, which has the value every value-preserving simplifier returns.)
\<close>

theorem loop_bounds_miss_an_iteration:
  "infer_mutate min_expr max_expr \<lparr>infer = [Some []], crops = []\<rparr>
     (loop 1 serial \<lparr>imin = constant_expr (- 2), imax = constant_expr 2\<rparr> (constant_expr 1)
        (crop_dim 0 0 \<lparr>imin = mul (variable 1) (variable 1), imax = mul (variable 1) (variable 1)\<rparr>
           (call_stmt 0 [0] [2])))
   = Inr (crop_buffer 0
            [\<lparr>imin = min_expr (mul (constant_expr (- 2)) (constant_expr (- 2)))
                              (mul (constant_expr 2) (constant_expr 2)),
              imax = max_expr (mul (constant_expr (- 2)) (constant_expr (- 2)))
                              (mul (constant_expr 2) (constant_expr 2))\<rparr>]
            (loop 1 serial \<lparr>imin = constant_expr (- 2), imax = constant_expr 2\<rparr> (constant_expr 1)
               (crop_dim 0 0 \<lparr>imin = mul (variable 1) (variable 1), imax = mul (variable 1) (variable 1)\<rparr>
                  (call_stmt 0 [0] [2]))),
          \<lparr>infer = [Some [\<lparr>imin = min_expr (mul (constant_expr (- 2)) (constant_expr (- 2)))
                                            (mul (constant_expr 2) (constant_expr 2)),
                            imax = max_expr (mul (constant_expr (- 2)) (constant_expr (- 2)))
                                            (mul (constant_expr 2) (constant_expr 2))\<rparr>]],
           crops = [None]\<rparr>)
   \<and> eval Map.empty (min_expr (mul (constant_expr (- 2)) (constant_expr (- 2)))
                               (mul (constant_expr 2) (constant_expr 2))) = Some 4
   \<and> eval Map.empty (max_expr (mul (constant_expr (- 2)) (constant_expr (- 2)))
                               (mul (constant_expr 2) (constant_expr 2))) = Some 4
   \<and> eval (Map.empty(1 \<mapsto> 0)) (mul (variable 1) (variable 1)) = Some 0"
  by (simp add: lookup_def assign_def merge_crop_dim_def vector_at_def defined_def Let_def
                mul_def min_expr_def max_expr_def loop_interval_def)

section \<open>Claim C7: parallel loops\<close>

lemma assign_same: "lookup m s = Some v \<Longrightarrow> assign m s (Some v) = m"
  by (auto simp: lookup_def assign_def list_update_same_conv split: if_splits)

lemma visit_call_or_copy_no_loops:
  "loops st = [] \<Longrightarrow> visit_call_or_copy h x outputs st = st"
proof (induction outputs)
  case Nil
  then show ?case by simp
next
  case (Cons out outputs)
  show ?case
  proof (cases "lookup (buffer_bounds_sf st) out")
    case None
    then show ?thesis using Cons by simp
  next
    case (Some bnds)
    then show ?thesis using Cons by (simp add: assign_same)
  qed
qed


text \<open>
  With an empty stack of loops on entry, a statement all of whose loops are parallel
  leaves the stack empty and records no fold factor.
\<close>

lemma no_serial_loop_keeps_state:
  "no_serial_loop s \<Longrightarrow> loops st = [] \<Longrightarrow> slide_mutate h x min_orig st s = Inr (s', st') \<Longrightarrow>
   loops st' = [] \<and> fold_factors st' = fold_factors st"
proof (induction s arbitrary: st s' st')
  case stmt_undefined
  then show ?case by simp
next
  case (block a b)
  from block.prems(3) obtain b' st1 a' where
    b: "slide_mutate h x min_orig st b = Inr (b', st1)"
    and a: "slide_mutate h x min_orig st1 a = Inr (a', st')"
    by (simp split: sum.splits prod.splits)
  have 1: "loops st1 = [] \<and> fold_factors st1 = fold_factors st"
    using block.IH(2)[OF _ block.prems(2) b] block.prems(1) by simp
  have 2: "loops st' = [] \<and> fold_factors st' = fold_factors st1"
    using block.IH(1)[OF _ _ a] block.prems(1) 1 by simp
  show ?case using 1 2 by simp
next
  case (let_stmt name v body)
  from let_stmt.prems(3) obtain body' where
    r: "slide_mutate h x min_orig st body = Inr (body', st')"
    by (simp split: sum.splits prod.splits)
  show ?case using let_stmt.IH[OF _ let_stmt.prems(2) r] let_stmt.prems(1) by simp
next
  case (loop name mode bnds step body)
  have par: "mode = parallel" using loop.prems(1) by simp
  from loop.prems(3) par obtain body' where
    r: "slide_mutate h x min_orig st body = Inr (body', st')"
    by (simp split: sum.splits prod.splits)
  show ?case using loop.IH[OF _ loop.prems(2) r] loop.prems(1) by simp
next
  case (if_then_else c t f)
  from if_then_else.prems(3) obtain t' st1 f' where
    t: "slide_mutate h x min_orig st t = Inr (t', st1)"
    and f: "slide_mutate h x min_orig st1 f = Inr (f', st')"
    by (simp split: sum.splits prod.splits)
  have 1: "loops st1 = [] \<and> fold_factors st1 = fold_factors st"
    using if_then_else.IH(1)[OF _ if_then_else.prems(2) t] if_then_else.prems(1) by simp
  have 2: "loops st' = [] \<and> fold_factors st' = fold_factors st1"
    using if_then_else.IH(2)[OF _ _ f] if_then_else.prems(1) 1 by simp
  show ?case using 1 2 by simp
next
  case (call_stmt target inputs outputs)
  then show ?case by (simp add: visit_call_or_copy_no_loops)
next
  case (copy_stmt src src_x dst padding)
  then show ?case
    using visit_call_or_copy_no_loops[of st h x "[dst]"]
    by (simp del: visit_call_or_copy.simps)
next
  case (allocate storage name elem_size dims body)
  define st0 where "st0 = st\<lparr>buffer_bounds_sf := assign (buffer_bounds_sf st) name (Some (map bounds dims))\<rparr>"
  from allocate.prems(3) obtain body' st1 where
    b: "slide_mutate h x min_orig st0 body = Inr (body', st1)"
    and s: "st' = st1\<lparr>buffer_bounds_sf := assign (buffer_bounds_sf st1) name (lookup (buffer_bounds_sf st) name)\<rparr>"
    by (auto simp: Let_def st0_def split: sum.splits prod.splits option.splits)
  have "loops st1 = [] \<and> fold_factors st1 = fold_factors st0"
    using allocate.IH[OF _ _ b] allocate.prems(1,2) by (simp add: st0_def)
  then show ?case using s by (simp add: st0_def)
next
  case (make_buffer name base elem_size dims body)
  from make_buffer.prems(3) obtain body' where
    r: "slide_mutate h x min_orig st body = Inr (body', st')"
    by (simp split: sum.splits prod.splits)
  show ?case using make_buffer.IH[OF _ make_buffer.prems(2) r] make_buffer.prems(1) by simp
next
  case (crop_buffer name bnds body)
  define st0 where "st0 = st\<lparr>buffer_bounds_sf := assign (buffer_bounds_sf st) name
      (map_option (substitute_bounds_box h 0 (buffer_bounds_sf st))
         (merge_crop (lookup (buffer_bounds_sf st) name) bnds))\<rparr>"
  from crop_buffer.prems(3) obtain body' st1 where
    b: "slide_mutate h x min_orig st0 body = Inr (body', st1)"
    and s: "st' = st1\<lparr>buffer_bounds_sf := assign (buffer_bounds_sf st1) name (lookup (buffer_bounds_sf st) name)\<rparr>"
    by (auto simp: Let_def st0_def split: sum.splits prod.splits)
  have "loops st1 = [] \<and> fold_factors st1 = fold_factors st0"
    using crop_buffer.IH[OF _ _ b] crop_buffer.prems(1,2) by (simp add: st0_def)
  then show ?case using s by (simp add: st0_def)
next
  case (crop_dim name dim bnds body)
  from crop_dim.prems(3) obtain merged where
    m: "merge_crop_dim (lookup (buffer_bounds_sf st) name) dim bnds = Some merged"
    by (auto simp: Let_def split: option.splits)
  define st0 where "st0 = st\<lparr>buffer_bounds_sf := assign (buffer_bounds_sf st) name
      (Some (substitute_bounds_box h 0 (buffer_bounds_sf st) merged))\<rparr>"
  from crop_dim.prems(3) m obtain body' st1 where
    b: "slide_mutate h x min_orig st0 body = Inr (body', st1)"
    and s: "st' = st1\<lparr>buffer_bounds_sf := assign (buffer_bounds_sf st1) name (lookup (buffer_bounds_sf st) name)\<rparr>"
    by (auto simp: Let_def st0_def split: sum.splits prod.splits option.splits if_splits)
  have "loops st1 = [] \<and> fold_factors st1 = fold_factors st0"
    using crop_dim.IH[OF _ _ b] crop_dim.prems(1,2) by (simp add: st0_def)
  then show ?case using s by (simp add: st0_def)
next
  case (slice_buffer name at body)
  then show ?case by simp
next
  case (slice_dim name dim at body)
  then show ?case by simp
next
  case (truncate_rank name rank body)
  then show ?case by simp
next
  case (check c)
  then show ?case by simp
qed


text \<open>
  C7: the visit of a parallel loop is the visit of its body, in the state the loop was
  met in (nothing is pushed on the stack of loops), and the loop is rebuilt with the
  bounds and the step it had; where all the loops of the body are parallel too and the
  stack was empty, the stack stays empty and no fold factor is recorded.
\<close>

theorem parallel_loop_is_skipped:
  "slide_mutate h x min_orig st (loop name parallel bnds step body)
     = (case slide_mutate h x min_orig st body of
          Inl e \<Rightarrow> Inl e
        | Inr (body', st1) \<Rightarrow> Inr (loop name parallel bnds step body', st1))
   \<and> (no_serial_loop body \<longrightarrow> loops st = [] \<longrightarrow>
        slide_mutate h x min_orig st (loop name parallel bnds step body) = Inr (s', st') \<longrightarrow>
        loops st' = [] \<and> fold_factors st' = fold_factors st)"
proof
  show "slide_mutate h x min_orig st (loop name parallel bnds step body)
     = (case slide_mutate h x min_orig st body of
          Inl e \<Rightarrow> Inl e
        | Inr (body', st1) \<Rightarrow> Inr (loop name parallel bnds step body', st1))"
    by simp
  show "no_serial_loop body \<longrightarrow> loops st = [] \<longrightarrow>
        slide_mutate h x min_orig st (loop name parallel bnds step body) = Inr (s', st') \<longrightarrow>
        loops st' = [] \<and> fold_factors st' = fold_factors st"
    using no_serial_loop_keeps_state[of "loop name parallel bnds step body" st h x min_orig s' st']
    by (simp del: slide_mutate.simps)
qed

theorem parallel_loop_is_skipped_witness:
  "no_serial_loop (call_stmt 0 [0] [2])
   \<and> slide_mutate affine_simplifier 9 (\<lambda>s. s + 10)
       \<lparr>buffer_bounds_sf =
          [None, None,
           Some [\<lparr>imin = sub (variable 1) (constant_expr 1),
                  imax = add (variable 1) (constant_expr 1)\<rparr>]],
        fold_factors = [], loops = []\<rparr>
       (loop 1 parallel \<lparr>imin = variable 5, imax = variable 7\<rparr> (constant_expr 1)
          (call_stmt 0 [0] [2]))
     = Inr (loop 1 parallel \<lparr>imin = variable 5, imax = variable 7\<rparr> (constant_expr 1)
              (call_stmt 0 [0] [2]),
            \<lparr>buffer_bounds_sf =
               [None, None,
                Some [\<lparr>imin = sub (variable 1) (constant_expr 1),
                       imax = add (variable 1) (constant_expr 1)\<rparr>]],
             fold_factors = [], loops = []\<rparr>)"
proof -
  define st where "st =
     \<lparr>buffer_bounds_sf =
        [None, None,
         Some [\<lparr>imin = sub (variable 1) (constant_expr 1),
                imax = add (variable 1) (constant_expr 1)\<rparr>]],
      fold_factors = ([] :: (nat \<times> expr) symbol_map), loops = []\<rparr>"
  define p where "p = loop 1 parallel \<lparr>imin = variable 5, imax = variable 7\<rparr> (constant_expr 1)
                        (call_stmt 0 [0] [2])"
  have body: "slide_mutate affine_simplifier 9 (\<lambda>s. s + 10) st (call_stmt 0 [0] [2])
                = Inr (call_stmt 0 [0] [2], st)"
    by (simp add: st_def lookup_def assign_def)
  note t = parallel_loop_is_skipped[of affine_simplifier 9 "\<lambda>s. s + 10" st 1
            "\<lparr>imin = variable 5, imax = variable 7\<rparr>" "constant_expr 1" "call_stmt 0 [0] [2]"]
  have result: "slide_mutate affine_simplifier 9 (\<lambda>s. s + 10) st p = Inr (p, st)"
    using t[THEN conjunct1] body unfolding p_def by (simp del: slide_mutate.simps)
  have nsl: "no_serial_loop (call_stmt 0 [0] [2])" and empty: "loops st = []"
    by (simp_all add: st_def)
  have kept: "loops st = [] \<and> fold_factors st = fold_factors st"
    using t[THEN conjunct2, rule_format, OF nsl empty result[unfolded p_def]] .
  show ?thesis
    using nsl result kept unfolding p_def st_def by (simp del: slide_mutate.simps)
qed

section \<open>Claim C3: sliding over a serial loop\<close>




text \<open>
  With \<^verbatim>\<open>operator&\<close> as it is, \<open>overlap\<close> is the hull of the two intervals: where it is
  empty, the bounds of the dimension are empty themselves.
\<close>

lemma empty_overlap_is_empty_region:
  "eval env (empty_interval (interval_and prev cur)) = Some v \<Longrightarrow> v \<noteq> 0 \<Longrightarrow>
   eval env (empty_interval cur) = Some 1"
  by (auto simp: empty_interval_def interval_and_def greater_def min_expr_def max_expr_def
           split: option.splits if_splits)






end
